theory Spec2Isabelle
  imports Main "HOL-Library.AList" "HOL-Library.Multiset"
begin

section \<open>Values and the Python operations the pipeline applies to them\<close>

text \<open>
  A line of a daily store is decoded by \<^verbatim>\<open>json.loads\<close>, a listing page by
  \<^verbatim>\<open>xmltodict.parse\<close>; both give nested dictionaries, lists, strings, numbers,
  booleans and \<^verbatim>\<open>None\<close>. A dictionary keeps its insertion order, so it is an
  association list (a decoded dictionary has no repeated key). Floating point numbers are
  left out of the model.
\<close>

datatype json =
    JNull
  | JBool bool
  | JNum int
  | JStr string
  | JArr "json list"
  | JObj "(string \<times> json) list"

datatype py_error =
    KeyError | TypeError | AttributeError | ValueError
  | JSONDecodeError | OSError | OverflowError

type_synonym paper = "(string \<times> json) list"

text \<open>Lists and dictionaries cannot be hashed: they are neither dictionary keys nor set elements.\<close>

fun hashable :: "json \<Rightarrow> bool" where
  "hashable (JArr xs) = False"
| "hashable (JObj kvs) = False"
| "hashable v = True"

text \<open>
  Python compares \<^verbatim>\<open>True\<close> equal to \<^verbatim>\<open>1\<close> and \<^verbatim>\<open>False\<close> equal to \<^verbatim>\<open>0\<close>, with equal
  hashes; \<open>py_key\<close> maps a hashable value to the representative of its equality class,
  so that two hashable values are equal in Python exactly when their keys are equal.
\<close>

fun py_key :: "json \<Rightarrow> json" where
  "py_key (JBool b) = JNum (if b then 1 else 0)"
| "py_key v = v"

text \<open>\<^verbatim>\<open>d.get(k, default)\<close> on a dictionary.\<close>

definition dict_get :: "paper \<Rightarrow> string \<Rightarrow> json \<Rightarrow> json" where
  "dict_get p k dflt = (case map_of p k of None \<Rightarrow> dflt | Some v \<Rightarrow> v)"

text \<open>
  Iterating a value: a list gives its elements, a string its characters, a dictionary its
  keys; nothing else is iterable.
\<close>

fun py_iter :: "json \<Rightarrow> py_error + json list" where
  "py_iter (JArr xs) = Inr xs"
| "py_iter (JStr s) = Inr (map (\<lambda>c. JStr [c]) s)"
| "py_iter (JObj kvs) = Inr (map (\<lambda>kv. JStr (fst kv)) kvs)"
| "py_iter v = Inl TypeError"

text \<open>
  \<^verbatim>\<open>x += y\<close>: a list is extended by the elements of any iterable, strings are
  concatenated, integers and booleans are added; every other pairing raises.
\<close>

fun py_iadd :: "json \<Rightarrow> json \<Rightarrow> py_error + json" where
  "py_iadd (JArr xs) y = (case py_iter y of Inl e \<Rightarrow> Inl e | Inr ys \<Rightarrow> Inr (JArr (xs @ ys)))"
| "py_iadd (JStr s) (JStr t) = Inr (JStr (s @ t))"
| "py_iadd (JNum a) (JNum b) = Inr (JNum (a + b))"
| "py_iadd (JNum a) (JBool b) = Inr (JNum (a + (if b then 1 else 0)))"
| "py_iadd (JBool a) (JNum b) = Inr (JNum ((if a then 1 else 0) + b))"
| "py_iadd (JBool a) (JBool b) = Inr (JNum ((if a then 1 else 0) + (if b then 1 else 0)))"
| "py_iadd x y = Inl TypeError"

text \<open>
  Building a set from a sequence: an element equal to one already present is dropped, so
  the set holds the first representative of each equality class.
\<close>

fun set_add_all :: "json list \<Rightarrow> json list \<Rightarrow> json list" where
  "set_add_all acc [] = acc"
| "set_add_all acc (x # xs) =
     set_add_all (if py_key x \<in> py_key ` set acc then acc else acc @ [x]) xs"

text \<open>
  \<^verbatim>\<open>list(set(v))\<close>. The order in which a set is iterated depends on the hashes of its
  elements, which differ from one process to the next for strings; the order is therefore a
  parameter \<open>so\<close> of the model, applied to the elements in insertion order.
\<close>

definition list_of_set :: "(json list \<Rightarrow> json list) \<Rightarrow> json \<Rightarrow> py_error + json list" where
  "list_of_set so v =
     (case py_iter v of
        Inl e \<Rightarrow> Inl e
      | Inr xs \<Rightarrow> if list_all hashable xs then Inr (so (set_add_all [] xs)) else Inl TypeError)"

text \<open>What is known of an iteration order: it lists the same elements, each as often.\<close>

definition set_listing :: "(json list \<Rightarrow> json list) \<Rightarrow> bool" where
  "set_listing so = (\<forall>xs. mset (so xs) = mset xs)"

section \<open>The daily stores\<close>

text \<open>
  A store file is a sequence of lines: blank, not decodable, or decoded to a value, the
  value that \<^verbatim>\<open>json.loads\<close> gives for the line. A record written by
  \<^verbatim>\<open>json.dumps\<close> is a line that decodes to the record.

  The file of a date is \<^verbatim>\<open>../data/YYYY-MM-DD.jsonl\<close>; the files are indexed here by
  the date itself, counted in days as \<^verbatim>\<open>date.toordinal\<close> does (day 1 is the first
  day of year 1). The date given on the command line is taken to be a date written in this
  form: for any other text \<^verbatim>\<open>strptime\<close> raises before a file is touched, or the
  file of the day is looked up under another name than the history is.

  The history files are named by \<^verbatim>\<open>strftime("%Y-%m-%d")\<close>, which writes a year below
  1000 without leading zeros (as the C library of Linux does): from 1000-01-01 on, day
  364878, the history file of a day is the store of that day; before, it is another file,
  \<open>unpadded\<close>, which is no day's store.

  The environment decides which operations on which file fail, and what a failed write
  leaves in the file.
\<close>

datatype line = Blank | Malformed | Doc json

record world =
  files :: "int \<Rightarrow> line list option"
  unpadded :: "int \<Rightarrow> line list option"
  read_fails :: "int \<Rightarrow> bool"
  write_fails :: "int \<Rightarrow> bool"
  torn :: "int \<Rightarrow> line list"
  remove_fails :: "int \<Rightarrow> bool"

definition path_exists :: "world \<Rightarrow> int \<Rightarrow> bool" where
  "path_exists w d = (files w d \<noteq> None)"

text \<open>The loop of \<open>load_papers_data\<close>; any exception leaves it.\<close>

fun load_lines :: "line list \<Rightarrow> paper list \<Rightarrow> json set \<Rightarrow> py_error + paper list \<times> json set" where
  "load_lines [] papers ids = Inr (papers, ids)"
| "load_lines (Blank # ls) papers ids = load_lines ls papers ids"
| "load_lines (Malformed # ls) papers ids = Inl JSONDecodeError"
| "load_lines (Doc (JObj data) # ls) papers ids =
     (let i = dict_get data ''id'' (JStr '''')
      in if hashable i then load_lines ls (papers @ [data]) (insert (py_key i) ids)
         else Inl TypeError)"
| "load_lines (Doc v # ls) papers ids = Inl AttributeError"

text \<open>
  \<open>load_papers_data(file_path)\<close>, for the file found at the path and whether opening it
  fails: \<open>load_papers_data\<close> is the call for the store of a day, \<open>load_history\<close> the call
  for the history file of a day.
\<close>

definition load_file :: "line list option \<Rightarrow> bool \<Rightarrow> paper list \<times> json set" where
  "load_file file fails =
     (case file of
        None \<Rightarrow> ([], {})
      | Some ls \<Rightarrow>
          if fails then ([], {})
          else (case load_lines ls [] {} of Inl e \<Rightarrow> ([], {}) | Inr r \<Rightarrow> r))"

definition load_papers_data :: "world \<Rightarrow> int \<Rightarrow> paper list \<times> json set" where
  "load_papers_data w d = load_file (files w d) (read_fails w d)"

definition first_padded_day :: int where
  "first_padded_day = 364878"

definition history_file :: "world \<Rightarrow> int \<Rightarrow> line list option" where
  "history_file w h = (if first_padded_day \<le> h then files w h else unpadded w h)"

definition load_history :: "world \<Rightarrow> int \<Rightarrow> paper list \<times> json set" where
  "load_history w h = load_file (history_file w h) (read_fails w h)"

definition save_papers_data :: "paper list \<Rightarrow> int \<Rightarrow> world \<Rightarrow> bool \<times> world" where
  "save_papers_data papers d w =
     (if write_fails w d then (False, w\<lparr>files := (files w)(d \<mapsto> torn w d)\<rparr>)
      else (True, w\<lparr>files := (files w)(d \<mapsto> map (\<lambda>p. Doc (JObj p)) papers)\<rparr>))"

definition os_remove :: "int \<Rightarrow> world \<Rightarrow> py_error + world" where
  "os_remove d w =
     (if files w d = None \<or> remove_fails w d then Inl OSError
      else Inr (w\<lparr>files := (files w)(d := None)\<rparr>))"

section \<open>Rolling-window deduplication\<close>

definition history_days :: nat where
  "history_days = 7"

text \<open>
  The loop over the preceding days. \<^verbatim>\<open>date - timedelta(days=i)\<close> raises when the
  result would lie before day 1.
\<close>

fun collect_history :: "world \<Rightarrow> int \<Rightarrow> nat list \<Rightarrow> json set \<Rightarrow> py_error + json set" where
  "collect_history w d [] history_ids = Inr history_ids"
| "collect_history w d (i # is) history_ids =
     (if d - int i < 1 then Inl OverflowError
      else collect_history w d is (history_ids \<union> snd (load_history w (d - int i))))"

text \<open>
  The identifier under which a record is looked up in a set of identifiers:
  \<^verbatim>\<open>paper.get('id', '')\<close>, up to the equality of Python.
\<close>

definition paper_id :: "paper \<Rightarrow> json" where
  "paper_id p = py_key (dict_get p ''id'' (JStr ''''))"

definition perform_deduplication :: "int \<Rightarrow> world \<Rightarrow> string \<times> world" where
  "perform_deduplication d w =
     (if \<not> path_exists w d then (''no_data'', w)
      else
        let (today_papers, today_ids) = load_papers_data w d
        in if today_papers = [] then (''no_data'', w)
           else
             (case collect_history w d [1..<history_days + 1] {} of
                Inl e \<Rightarrow> (''error'', w)
              | Inr history_ids \<Rightarrow>
                  let duplicate_ids = today_ids \<inter> history_ids
                  in if duplicate_ids \<noteq> {} then
                       let new_papers = filter (\<lambda>p. paper_id p \<notin> duplicate_ids) today_papers
                       in if new_papers \<noteq> [] then
                            (case save_papers_data new_papers d w of
                               (True, w') \<Rightarrow> (''has_new_content'', w')
                             | (False, w') \<Rightarrow> (''error'', w'))
                          else
                            (case os_remove d w of
                               Inl e \<Rightarrow> (''no_new_content'', w)
                             | Inr w' \<Rightarrow> (''no_new_content'', w'))
                     else (''has_new_content'', w)))"

section \<open>Same-day merge\<close>

text \<open>
  The dictionary \<open>merged\<close> maps the key of an identifier to the record kept for it, in
  insertion order.
\<close>

fun merge_items :: "paper list \<Rightarrow> (json \<times> paper) list \<Rightarrow> py_error + (json \<times> paper) list" where
  "merge_items [] merged = Inr merged"
| "merge_items (item # rest) merged =
     (case map_of item ''id'' of
        None \<Rightarrow> Inl KeyError
      | Some item_id \<Rightarrow>
          if \<not> hashable item_id then Inl TypeError
          else
            (case map_of merged (py_key item_id) of
               None \<Rightarrow> merge_items rest (merged @ [(py_key item_id, item)])
             | Some base \<Rightarrow>
                 (case map_of base ''category'' of
                    None \<Rightarrow> Inl KeyError
                  | Some c \<Rightarrow>
                      (case py_iadd c (dict_get item ''category'' (JArr [])) of
                         Inl e \<Rightarrow> Inl e
                       | Inr c' \<Rightarrow>
                           merge_items rest
                             (AList.update (py_key item_id)
                                (AList.update ''category'' c' base) merged)))))"

fun set_categories :: "(json list \<Rightarrow> json list) \<Rightarrow> paper list \<Rightarrow> py_error + paper list" where
  "set_categories so [] = Inr []"
| "set_categories so (v # vs) =
     (case map_of v ''category'' of
        None \<Rightarrow> Inl KeyError
      | Some c \<Rightarrow>
          (case list_of_set so c of
             Inl e \<Rightarrow> Inl e
           | Inr cs \<Rightarrow>
               (case set_categories so vs of
                  Inl e \<Rightarrow> Inl e
                | Inr vs' \<Rightarrow> Inr (AList.update ''category'' (JArr cs) v # vs'))))"

definition merge_papers :: "(json list \<Rightarrow> json list) \<Rightarrow> paper list \<Rightarrow> py_error + paper list" where
  "merge_papers so today_papers =
     (case merge_items today_papers [] of
        Inl e \<Rightarrow> Inl e
      | Inr merged \<Rightarrow> set_categories so (map snd merged))"

definition perform_merge :: "(json list \<Rightarrow> json list) \<Rightarrow> int \<Rightarrow> world \<Rightarrow> string \<times> world" where
  "perform_merge so d w =
     (if \<not> path_exists w d then (''no_data'', w)
      else
        let (today_papers, today_ids) = load_papers_data w d
        in if today_papers = [] then (''no_data'', w)
           else
             (case merge_papers so today_papers of
                Inl e \<Rightarrow> (''error'', w)
              | Inr result \<Rightarrow>
                  (case save_papers_data result d w of
                     (True, w') \<Rightarrow> (''merge_success'', w')
                   | (False, w') \<Rightarrow> (''error'', w'))))"

section \<open>The workflow gate\<close>

text \<open>
  \<open>main\<close> runs the merge, maps its status to an exit code or goes on to the
  deduplication, and maps that status to an exit code. \<open>main_with\<close> is its body over any
  two operations on any state, so that what it does with each status, reachable or not, can
  be stated.
\<close>

definition main_with :: "('s \<Rightarrow> string \<times> 's) \<Rightarrow> ('s \<Rightarrow> string \<times> 's) \<Rightarrow> 's \<Rightarrow> int \<times> 's" where
  "main_with merge dedup s =
     (let (merge_status, s1) = merge s
      in if merge_status = ''merge_success'' then
           (let (dedup_status, s2) = dedup s1
            in if dedup_status = ''has_new_content'' then (0, s2)
               else if dedup_status = ''no_new_content'' then (1, s2)
               else if dedup_status = ''no_data'' then (1, s2)
               else if dedup_status = ''error'' then (2, s2)
               else (2, s2))
         else if merge_status = ''no_data'' then (1, s1)
         else if merge_status = ''error'' then (2, s1)
         else (2, s1))"

definition main :: "(json list \<Rightarrow> json list) \<Rightarrow> int \<Rightarrow> world \<Rightarrow> int \<times> world" where
  "main so d w = main_with (perform_merge so d) (perform_deduplication d) w"

text \<open>
  The table of the gate as the specification gives it: the exit code for a merge status and
  a deduplication status.
\<close>

definition gate_code :: "string \<Rightarrow> string \<Rightarrow> int" where
  "gate_code merge_status dedup_status =
     (if merge_status = ''no_data'' then 1
      else if merge_status \<noteq> ''merge_success'' then 2
      else if dedup_status = ''has_new_content'' then 0
      else if dedup_status = ''no_new_content'' \<or> dedup_status = ''no_data'' then 1
      else 2)"

section \<open>The crawl: one listing page\<close>

text \<open>
  A date is a year, a month and a day; \<^verbatim>\<open>datetime\<close> values at midnight compare as these
  triples do.
\<close>

type_synonym date = "nat \<times> nat \<times> nat"

fun date_less :: "date \<Rightarrow> date \<Rightarrow> bool" where
  "date_less (y1, m1, d1) (y2, m2, d2) =
     (y1 < y2 \<or> (y1 = y2 \<and> (m1 < m2 \<or> (m1 = m2 \<and> d1 < d2))))"

text \<open>
  \<^verbatim>\<open>str.strip()\<close> removes the white space at both ends. A character is a code
  point below 256 here. Of these, Python takes as white space, in \<^verbatim>\<open>strip\<close> and for
  \<^verbatim>\<open>\s\<close> alike, the blank, the control characters 0x09 to 0x0D and 0x1C to 0x1F, the
  next-line character 0x85 and the no-break space 0xA0; the only decimal digits are
  \<^verbatim>\<open>0\<close> to \<^verbatim>\<open>9\<close>, and the only letters that match the month names when case is
  ignored are those of ASCII.
\<close>

definition is_space :: "char \<Rightarrow> bool" where
  "is_space c = (c \<in> set [CHR '' '', CHR 0x09, CHR 0x0A, CHR 0x0B, CHR 0x0C, CHR 0x0D,
                             CHR 0x1C, CHR 0x1D, CHR 0x1E, CHR 0x1F, CHR 0x85, CHR 0xA0])"

definition strip :: "string \<Rightarrow> string" where
  "strip s = rev (dropWhile is_space (rev (dropWhile is_space s)))"

text \<open>
  \<^verbatim>\<open>datetime.strptime(s, "%d %b %Y")\<close>. The library matches the whole of \<open>s\<close> against
  the pattern
  \<^verbatim>\<open>(3[0-1]|[1-2]\d|0[1-9]|[1-9]| [1-9])\s+(jan|feb|...|dec)\s+(\d\d\d\d)\<close>, ignoring case,
  and then builds the date, which fails when the day does not exist. \<open>day_alternatives\<close>
  lists the ways in which the first group matches a prefix, in the order in which the
  pattern tries them.
\<close>

definition digit_val :: "char \<Rightarrow> nat option" where
  "digit_val c =
     map_of [(CHR ''0'', 0), (CHR ''1'', 1), (CHR ''2'', 2), (CHR ''3'', 3), (CHR ''4'', 4),
             (CHR ''5'', 5), (CHR ''6'', 6), (CHR ''7'', 7), (CHR ''8'', 8), (CHR ''9'', 9)] c"

definition to_lower :: "char \<Rightarrow> char" where
  "to_lower c =
     (case map_of (zip ''ABCDEFGHIJKLMNOPQRSTUVWXYZ'' ''abcdefghijklmnopqrstuvwxyz'') c of
        None \<Rightarrow> c
      | Some l \<Rightarrow> l)"

definition month_names :: "(string \<times> nat) list" where
  "month_names =
     [(''jan'', 1), (''feb'', 2), (''mar'', 3), (''apr'', 4), (''may'', 5), (''jun'', 6),
      (''jul'', 7), (''aug'', 8), (''sep'', 9), (''oct'', 10), (''nov'', 11), (''dec'', 12)]"

fun day_alternatives :: "string \<Rightarrow> (nat \<times> string) list" where
  "day_alternatives (c1 # c2 # rest) =
     (case (digit_val c1, digit_val c2) of
        (Some a, Some b) \<Rightarrow>
          (if a = 3 \<and> b \<le> 1 then [(30 + b, rest)] else [])
          @ (if 1 \<le> a \<and> a \<le> 2 then [(10 * a + b, rest)] else [])
          @ (if a = 0 \<and> 1 \<le> b then [(b, rest)] else [])
          @ (if 1 \<le> a then [(a, c2 # rest)] else [])
      | (Some a, None) \<Rightarrow> (if 1 \<le> a then [(a, c2 # rest)] else [])
      | (None, Some b) \<Rightarrow> (if c1 = CHR '' '' \<and> 1 \<le> b then [(b, rest)] else [])
      | (None, None) \<Rightarrow> [])"
| "day_alternatives [c1] =
     (case digit_val c1 of Some a \<Rightarrow> (if 1 \<le> a then [(a, [])] else []) | None \<Rightarrow> [])"
| "day_alternatives [] = []"

definition spaces1 :: "string \<Rightarrow> string option" where
  "spaces1 s = (case s of c # rest \<Rightarrow> if is_space c then Some (dropWhile is_space rest) else None
                | [] \<Rightarrow> None)"

definition month_year :: "string \<Rightarrow> (nat \<times> nat) option" where
  "month_year s =
     (case spaces1 s of
        None \<Rightarrow> None
      | Some s1 \<Rightarrow>
          (case map_of month_names (map to_lower (take 3 s1)) of
             None \<Rightarrow> None
           | Some m \<Rightarrow>
               (case spaces1 (drop 3 s1) of
                  None \<Rightarrow> None
                | Some s2 \<Rightarrow>
                    (case map digit_val s2 of
                       [Some a, Some b, Some c, Some d] \<Rightarrow>
                         Some (m, 1000 * a + 100 * b + 10 * c + d)
                     | _ \<Rightarrow> None))))"

fun first_match :: "(nat \<times> string) list \<Rightarrow> date option" where
  "first_match [] = None"
| "first_match ((d, rest) # alts) =
     (case month_year rest of
        Some (m, y) \<Rightarrow> Some (y, m, d)
      | None \<Rightarrow> first_match alts)"

definition leap_year :: "nat \<Rightarrow> bool" where
  "leap_year y = (y mod 4 = 0 \<and> (y mod 100 \<noteq> 0 \<or> y mod 400 = 0))"

definition days_in_month :: "nat \<Rightarrow> nat \<Rightarrow> nat" where
  "days_in_month y m =
     (if m = 2 then (if leap_year y then 29 else 28)
      else if m \<in> {4, 6, 9, 11} then 30 else 31)"

definition valid_date :: "date \<Rightarrow> bool" where
  "valid_date dt =
     (case dt of (y, m, d) \<Rightarrow>
        1 \<le> y \<and> y \<le> 9999 \<and> 1 \<le> m \<and> m \<le> 12 \<and> 1 \<le> d \<and> d \<le> days_in_month y m)"

definition strptime :: "string \<Rightarrow> py_error + date" where
  "strptime s =
     (case first_match (day_alternatives s) of
        None \<Rightarrow> Inl ValueError
      | Some dt \<Rightarrow> if valid_date dt then Inr dt else Inl ValueError)"

text \<open>
  \<^verbatim>\<open>strftime("%d %b %Y")\<close>: the day with two digits, the English abbreviation of the
  month, the year in decimal (whether a year below 1000 is padded with zeros depends on the
  C library; it is not padded here).
\<close>

definition digit_char :: "nat \<Rightarrow> char" where
  "digit_char n = ''0123456789'' ! n"

fun decimal :: "nat \<Rightarrow> string" where
  "decimal n =
     (if n < 10 then [digit_char n] else decimal (n div 10) @ [digit_char (n mod 10)])"

definition month_abbr :: "nat \<Rightarrow> string" where
  "month_abbr m =
     [''Jan'', ''Feb'', ''Mar'', ''Apr'', ''May'', ''Jun'',
      ''Jul'', ''Aug'', ''Sep'', ''Oct'', ''Nov'', ''Dec''] ! (m - 1)"

definition strftime :: "date \<Rightarrow> string" where
  "strftime dt =
     (case dt of (y, m, d) \<Rightarrow>
        (if d < 10 then ''0'' else '''') @ decimal d @ '' '' @ month_abbr m @ '' '' @ decimal y)"

text \<open>
  The requests that \<open>parse\<close> yields: the next listing page of a category (its collection
  number, the category, the offset) or the detail of a paper (its identifier and the listing
  entry, carried along to \<open>parse_detail\<close>).
\<close>

datatype request = PageRequest nat string int | DetailRequest json paper

definition category2id :: "(string \<times> nat) list" where
  "category2id =
     [(''IS'', 304241), (''MKT'', 298223), (''AC'', 204), (''CS'', 2894322),
      (''ECON'', 205), (''FE'', 203), (''MG'', 200668)]"

text \<open>The request for the listing page at an offset; \<open>build_url\<close> looks the category up.\<close>

definition page_request :: "string \<Rightarrow> int \<Rightarrow> py_error + request" where
  "page_request category index =
     (case map_of category2id category of
        None \<Rightarrow> Inl KeyError
      | Some cat_id \<Rightarrow> Inr (PageRequest cat_id category index))"

text \<open>The first loop of \<open>parse\<close>: the approved dates of the entries that have one.\<close>

fun approved_dates :: "json list \<Rightarrow> py_error + date list" where
  "approved_dates [] = Inr []"
| "approved_dates (JObj p # rest) =
     (case dict_get p ''approved_date'' (JStr '''') of
        JStr s \<Rightarrow>
          if strip s = [] then approved_dates rest
          else
            (case strptime (strip s) of
               Inl e \<Rightarrow> Inl e
             | Inr d \<Rightarrow>
                 (case approved_dates rest of Inl e \<Rightarrow> Inl e | Inr ds \<Rightarrow> Inr (d # ds)))
      | _ \<Rightarrow> Inl AttributeError)"
| "approved_dates (v # rest) = Inl AttributeError"

fun min_date :: "date \<Rightarrow> date list \<Rightarrow> date" where
  "min_date m [] = m"
| "min_date m (d # ds) = min_date (if date_less d m then d else m) ds"

fun max_date :: "date \<Rightarrow> date list \<Rightarrow> date" where
  "max_date m [] = m"
| "max_date m (d # ds) = max_date (if date_less m d then d else m) ds"

text \<open>
  The second loop of \<open>parse\<close>. It is a generator: the requests yielded before an
  exception stay yielded.
\<close>

fun detail_requests :: "string \<Rightarrow> string \<Rightarrow> json list \<Rightarrow> request list \<times> py_error option" where
  "detail_requests date_str category [] = ([], None)"
| "detail_requests date_str category (JObj p # rest) =
     (let paper = AList.update ''category'' (JArr [JStr category]) p
      in case dict_get paper ''approved_date'' (JStr '''') of
           JStr s \<Rightarrow>
             if strip s \<noteq> date_str then detail_requests date_str category rest
             else
               (case map_of paper ''id'' of
                  None \<Rightarrow> ([], Some KeyError)
                | Some i \<Rightarrow>
                    (case detail_requests date_str category rest of
                       (reqs, err) \<Rightarrow> (DetailRequest i paper # reqs, err)))
         | _ \<Rightarrow> ([], Some AttributeError))"
| "detail_requests date_str category (v # rest) = ([], Some TypeError)"

text \<open>
  The body of \<open>parse\<close> from the first loop on, over the values that the two loops go
  through.
\<close>

definition parse_entries ::
  "date \<Rightarrow> string \<Rightarrow> int \<Rightarrow> json list \<Rightarrow> request list \<times> py_error option" where
  "parse_entries target category index papers =
     (case approved_dates papers of
        Inl e \<Rightarrow> ([], Some e)
      | Inr [] \<Rightarrow> ([], Some ValueError)
      | Inr (d # ds) \<Rightarrow>
          if date_less target (min_date d ds) then
            (case page_request category (index + 50) of
               Inl e \<Rightarrow> ([], Some e)
             | Inr next_page \<Rightarrow> ([next_page], None))
          else if date_less (max_date d ds) target then ([], None)
          else
            (case detail_requests (strftime target) category papers of
               (reqs, Some e) \<Rightarrow> (reqs, Some e)
             | (reqs, None) \<Rightarrow>
                 (case page_request category (index + 50) of
                    Inl e \<Rightarrow> (reqs, Some e)
                  | Inr next_page \<Rightarrow> (reqs @ [next_page], None))))"

text \<open>
  The entries of the decoded page:
  \<^verbatim>\<open>data.get("PaperResultSet", {}).get("papers", {}).get("papers", [])\<close>. A default is
  used for a key that is absent; a value that is present but is not a dictionary has no
  \<^verbatim>\<open>get\<close>.
\<close>

definition listing_papers :: "paper \<Rightarrow> py_error + json" where
  "listing_papers data =
     (case dict_get data ''PaperResultSet'' (JObj []) of
        JObj result_set \<Rightarrow>
          (case dict_get result_set ''papers'' (JObj []) of
             JObj papers \<Rightarrow> Inr (dict_get papers ''papers'' (JArr []))
           | _ \<Rightarrow> Inl AttributeError)
      | _ \<Rightarrow> Inl AttributeError)"

text \<open>
  \<open>parse\<close>, of the decoded response \<open>data\<close>, a dictionary. The loops iterate over
  whatever the entries are: the elements of a list, the keys of a dictionary, the characters
  of a string; no other value can be iterated. \<^verbatim>\<open>xmltodict\<close> gives a list for an element
  that occurs several times under its parent, and for an element that occurs once the
  decoded element itself: a dictionary when it has children, \<^verbatim>\<open>None\<close> when it is empty.
\<close>

definition parse :: "date \<Rightarrow> string \<Rightarrow> int \<Rightarrow> paper \<Rightarrow> request list \<times> py_error option" where
  "parse target category index data =
     (case listing_papers data of
        Inl e \<Rightarrow> ([], Some e)
      | Inr papers \<Rightarrow>
          (case py_iter papers of
             Inl e \<Rightarrow> ([], Some e)
           | Inr entries \<Rightarrow> parse_entries target category index entries))"

text \<open>\<open>parse_detail\<close>: the entry with the fetched detail, the record that is emitted.\<close>

definition parse_detail :: "paper \<Rightarrow> paper \<Rightarrow> paper" where
  "parse_detail paper response =
     AList.update ''detail'' (dict_get response ''PaperJson'' (JObj [])) paper"

text \<open>
  The text of the approved date of a listing entry, and the entries of a page whose text is
  the target date as \<open>strftime\<close> writes it, each with its category set.
\<close>

definition date_text :: "paper \<Rightarrow> string" where
  "date_text p = (case dict_get p ''approved_date'' (JStr '''') of JStr s \<Rightarrow> strip s | _ \<Rightarrow> [])"

fun matching :: "date \<Rightarrow> string \<Rightarrow> json list \<Rightarrow> paper list" where
  "matching target category [] = []"
| "matching target category (JObj p # rest) =
     (if date_text p = strftime target
      then AList.update ''category'' (JArr [JStr category]) p # matching target category rest
      else matching target category rest)"
| "matching target category (v # rest) = matching target category rest"

section \<open>What the claims speak of\<close>

text \<open>
  The records and the identifiers that the code reads from a daily store are what
  \<open>load_papers_data\<close> returns for it: none when the file is absent, cannot be opened or
  holds a line that makes the loop raise. The identifiers that the code reads as the history
  of a date are those of the history files of the seven days before it.
\<close>

definition store_papers :: "world \<Rightarrow> int \<Rightarrow> paper list" where
  "store_papers w d = fst (load_papers_data w d)"

definition store_ids :: "world \<Rightarrow> int \<Rightarrow> json set" where
  "store_ids w d = snd (load_papers_data w d)"

definition history_ids :: "world \<Rightarrow> int \<Rightarrow> json set" where
  "history_ids w h = snd (load_history w h)"

definition window_ids :: "world \<Rightarrow> int \<Rightarrow> json set" where
  "window_ids w d = (\<Union>i\<in>{1..7}. history_ids w (d - i))"

text \<open>
  The records that a store file holds, whatever else is in the file and whether or not it
  can be read by the code, and their identifiers.
\<close>

fun file_records :: "line list \<Rightarrow> paper list" where
  "file_records [] = []"
| "file_records (Doc (JObj p) # ls) = p # file_records ls"
| "file_records (l # ls) = file_records ls"

definition file_papers :: "world \<Rightarrow> int \<Rightarrow> paper list" where
  "file_papers w d = (case files w d of None \<Rightarrow> [] | Some ls \<Rightarrow> file_records ls)"

definition file_ids :: "world \<Rightarrow> int \<Rightarrow> json set" where
  "file_ids w d = paper_id ` set (file_papers w d)"

text \<open>A store that is absent, or is read without an exception.\<close>

definition store_readable :: "world \<Rightarrow> int \<Rightarrow> bool" where
  "store_readable w d =
     (case files w d of
        None \<Rightarrow> True
      | Some ls \<Rightarrow>
          \<not> read_fails w d \<and> (case load_lines ls [] {} of Inl e \<Rightarrow> False | Inr r \<Rightarrow> True))"

text \<open>
  The identifiers of the stores of the seven days before a date, each as the code reads it:
  a store that is absent or cannot be read has none.
\<close>

definition stores_window :: "world \<Rightarrow> int \<Rightarrow> json set" where
  "stores_window w d = (\<Union>i\<in>{1..7}. store_ids w (d - i))"

text \<open>
  The identifiers of the records in the files of those stores, and whether each of the seven
  stores is absent or read without an exception.
\<close>

definition files_window :: "world \<Rightarrow> int \<Rightarrow> json set" where
  "files_window w d = (\<Union>i\<in>{1..7}. file_ids w (d - i))"

definition history_readable :: "world \<Rightarrow> int \<Rightarrow> bool" where
  "history_readable w d = (\<forall>i\<in>{1..7}. store_readable w (d - i))"

text \<open>The records of a store that survive the deduplication.\<close>

definition survivors :: "world \<Rightarrow> int \<Rightarrow> paper list" where
  "survivors w d = filter (\<lambda>p. paper_id p \<notin> window_ids w d) (store_papers w d)"

text \<open>The values of a list in the order of their first occurrence.\<close>

fun first_seen :: "'a list \<Rightarrow> 'a list" where
  "first_seen [] = []"
| "first_seen (x # xs) = x # filter (\<lambda>y. y \<noteq> x) (first_seen xs)"

text \<open>
  The category sequence of a record: what iterating its category gives, nothing when the
  record has no category or one that cannot be iterated.
\<close>

definition elems :: "json \<Rightarrow> json list" where
  "elems v = (case py_iter v of Inl e \<Rightarrow> [] | Inr xs \<Rightarrow> xs)"

definition cat_elems :: "paper \<Rightarrow> json list" where
  "cat_elems p = elems (dict_get p ''category'' (JArr []))"

text \<open>
  The entry kept for the identifier key \<open>k\<close> once the records \<open>seen\<close> are merged: the
  first record with that identifier, but for its category, whose elements are those of all
  records with that identifier, in order.
\<close>

definition merged_entry :: "paper list \<Rightarrow> json \<Rightarrow> paper \<Rightarrow> bool" where
  "merged_entry seen k r =
     (\<exists>base. List.find (\<lambda>p. paper_id p = k) seen = Some base
        \<and> map_of base ''id'' \<noteq> None
        \<and> (r = base \<or> (\<exists>c. r = AList.update ''category'' c base))
        \<and> cat_elems r = concat (map cat_elems (filter (\<lambda>p. paper_id p = k) seen)))"

text \<open>
  What the merge is to make of the records \<open>ps\<close> for one identifier: the first record
  with that identifier, its category replaced by a list without repetition of the category
  values of all records with that identifier.
\<close>

definition merged_record :: "paper list \<Rightarrow> paper \<Rightarrow> bool" where
  "merged_record ps r =
     (\<exists>base cs. List.find (\<lambda>p. paper_id p = paper_id r) ps = Some base
        \<and> r = AList.update ''category'' (JArr cs) base
        \<and> distinct (map py_key cs)
        \<and> py_key ` set cs
            = py_key ` (\<Union>p\<in>set (filter (\<lambda>p. paper_id p = paper_id r) ps). set (cat_elems p)))"

text \<open>
  The shape of a record that the merge has written: an identifier that can be hashed and a
  category that is a list of values that can be hashed, none repeated.
\<close>

definition merged_shape :: "paper \<Rightarrow> bool" where
  "merged_shape r =
     (case map_of r ''id'' of
        None \<Rightarrow> False
      | Some i \<Rightarrow>
          hashable i \<and>
          (case map_of r ''category'' of
             Some (JArr cs) \<Rightarrow> list_all hashable cs \<and> distinct (map py_key cs)
           | _ \<Rightarrow> False))"

text \<open>
  The shape of a record as the crawl writes it: an identifier that can be hashed and a
  category that is a list of values that can be hashed.
\<close>

definition record_ok :: "paper \<Rightarrow> bool" where
  "record_ok p =
     (case map_of p ''id'' of
        None \<Rightarrow> False
      | Some i \<Rightarrow>
          hashable i \<and>
          (case map_of p ''category'' of
             Some (JArr cs) \<Rightarrow> list_all hashable cs
           | _ \<Rightarrow> False))"

text \<open>A record with its category list put in another order.\<close>

definition reorder_category :: "(json list \<Rightarrow> json list) \<Rightarrow> paper \<Rightarrow> paper" where
  "reorder_category so r =
     (case map_of r ''category'' of
        Some (JArr cs) \<Rightarrow> AList.update ''category'' (JArr (so cs)) r
      | _ \<Rightarrow> r)"

section \<open>Example environments\<close>

text \<open>
  An environment with the given files in which reading, writing and deleting fail or not,
  for every file alike.
\<close>

definition env :: "(int \<Rightarrow> line list option) \<Rightarrow> bool \<Rightarrow> bool \<Rightarrow> bool \<Rightarrow> world" where
  "env fs rd wr rm =
     \<lparr>files = fs, unpadded = (\<lambda>d. None), read_fails = (\<lambda>d. rd),
      write_fails = (\<lambda>d. wr), torn = (\<lambda>d. []), remove_fails = (\<lambda>d. rm)\<rparr>"

text \<open>
  Day 739454 is 2025-07-22. Its store holds the record \<open>A\<close>, which the store of
  2025-07-18 holds as well.
\<close>

definition paper_A :: paper where
  "paper_A = [(''id'', JStr ''A''), (''category'', JArr [JStr ''IS''])]"

definition files_A :: "int \<Rightarrow> line list option" where
  "files_A d = (if d = 739454 \<or> d = 739450 then Some [Doc (JObj paper_A)] else None)"

text \<open>
  The store of 2025-07-22 holds the records \<open>A\<close>, \<open>B\<close> and \<open>C\<close>, and the store of the day
  before holds \<open>B\<close>.
\<close>

definition paper_B :: paper where
  "paper_B = [(''id'', JStr ''B''), (''category'', JArr [JStr ''MKT''])]"

definition paper_C :: paper where
  "paper_C = [(''id'', JStr ''C''), (''category'', JArr [JStr ''IS''])]"

definition files_ABC :: "int \<Rightarrow> line list option" where
  "files_ABC d =
     (if d = 739454 then Some [Doc (JObj paper_A), Doc (JObj paper_B), Doc (JObj paper_C)]
      else if d = 739453 then Some [Doc (JObj paper_B)]
      else None)"

text \<open>
  The store of 2025-07-22 holds the paper 123 twice, once from the category IS and once
  from the category MKT.
\<close>

definition paper_IS :: paper where
  "paper_IS = [(''id'', JStr ''123''), (''category'', JArr [JStr ''IS''])]"

definition paper_MKT :: paper where
  "paper_MKT = [(''id'', JStr ''123''), (''category'', JArr [JStr ''MKT''])]"

definition files_M :: "int \<Rightarrow> line list option" where
  "files_M d = (if d = 739454 then Some [Doc (JObj paper_IS), Doc (JObj paper_MKT)] else None)"

text \<open>A store whose second line cannot be decoded, and a store whose record has no identifier.\<close>

definition files_bad :: "int \<Rightarrow> line list option" where
  "files_bad d = (if d = 739454 then Some [Doc (JObj paper_A), Malformed] else None)"

definition paper_anon :: paper where
  "paper_anon = [(''category'', JArr [JStr ''IS''])]"

definition files_anon :: "int \<Rightarrow> line list option" where
  "files_anon d = (if d = 739454 then Some [Doc (JObj paper_anon)] else None)"

text \<open>
  The same record together with the record \<open>A\<close>, the day after a store with a record whose
  identifier is the empty string.
\<close>

definition files_anon_again :: "int \<Rightarrow> line list option" where
  "files_anon_again d =
     (if d = 739454 then Some [Doc (JObj paper_anon), Doc (JObj paper_A)]
      else if d = 739453 then Some [Doc (JObj [(''id'', JStr '''')])]
      else None)"

text \<open>A decoded listing page, with the value of the innermost \<open>papers\<close>.\<close>

definition listing :: "json \<Rightarrow> paper" where
  "listing v = [(''PaperResultSet'', JObj [(''papers'', JObj [(''papers'', v)])])]"

text \<open>The two entries of a listing page, of the 3rd and the 2nd of July 2025.\<close>

definition page_target_day :: "json list" where
  "page_target_day =
     [JObj [(''id'', JStr ''1''), (''approved_date'', JStr ''03 Jul 2025'')],
      JObj [(''id'', JStr ''2''), (''approved_date'', JStr ''02 Jul 2025'')]]"

section \<open>Reading and writing a store\<close>

text \<open>
  What a successful read returns: the records in file order and the keys of their
  identifiers, every identifier hashable. Reading back what \<open>save_papers_data\<close> wrote
  gives the written records.
\<close>

lemma load_lines_Inr:
  "load_lines ls papers ids = Inr (ps, is) \<Longrightarrow>
     \<exists>new. ps = papers @ new \<and> is = ids \<union> paper_id ` set new
        \<and> (\<forall>p\<in>set new. hashable (dict_get p ''id'' (JStr '''')))"
proof (induction ls papers ids rule: load_lines.induct)
  case (4 data ls papers ids)
  then show ?case
    by (auto simp: Let_def paper_id_def split: if_splits)
qed auto

lemma load_lines_saved:
  "\<forall>p\<in>set ps. hashable (dict_get p ''id'' (JStr '''')) \<Longrightarrow>
     load_lines (map (\<lambda>p. Doc (JObj p)) ps) papers ids = Inr (papers @ ps, ids \<union> paper_id ` set ps)"
  by (induction ps arbitrary: papers ids) (auto simp: Let_def paper_id_def)

lemma load_papers_data_unfold:
  "load_papers_data w d =
     (case files w d of
        None \<Rightarrow> ([], {})
      | Some ls \<Rightarrow>
          if read_fails w d then ([], {})
          else (case load_lines ls [] {} of Inl e \<Rightarrow> ([], {}) | Inr r \<Rightarrow> r))"
  by (simp add: load_papers_data_def load_file_def)

lemma load_history_padded:
  "first_padded_day \<le> h \<Longrightarrow> load_history w h = load_papers_data w h"
  by (simp add: load_history_def load_papers_data_def history_file_def)

lemma load_papers_data_ids:
  "snd (load_papers_data w d) = paper_id ` set (fst (load_papers_data w d))"
  by (auto simp: load_papers_data_unfold split: option.splits sum.splits dest!: load_lines_Inr)

lemma load_papers_data_hashable:
  "p \<in> set (fst (load_papers_data w d)) \<Longrightarrow> hashable (dict_get p ''id'' (JStr ''''))"
  by (auto simp: load_papers_data_unfold split: option.splits sum.splits if_splits dest!: load_lines_Inr)

lemma load_papers_data_nonempty:
  "fst (load_papers_data w d) \<noteq> [] \<Longrightarrow> files w d \<noteq> None \<and> \<not> read_fails w d"
  by (auto simp: load_papers_data_unfold split: option.splits if_splits)

lemma load_lines_no_malformed:
  "load_lines ls papers ids = Inr r \<Longrightarrow> Malformed \<notin> set ls"
  by (induction ls papers ids rule: load_lines.induct) (auto simp: Let_def split: if_splits)

lemma store_ids_image: "store_ids w d = paper_id ` set (store_papers w d)"
  by (simp add: store_ids_def store_papers_def load_papers_data_ids)

lemma store_unreadable:
  "files w d = None \<or> read_fails w d \<or> Malformed \<in> set (the (files w d)) \<Longrightarrow>
     store_papers w d = [] \<and> store_ids w d = {}"
  by (auto simp: store_papers_def store_ids_def load_papers_data_unfold
      split: option.splits sum.splits dest: load_lines_no_malformed)

lemma store_papers_nonempty:
  "store_papers w d \<noteq> [] \<Longrightarrow> files w d \<noteq> None \<and> \<not> read_fails w d"
  using load_papers_data_nonempty [of w d] by (simp add: store_papers_def)

lemma duplicates_need_records:
  "store_ids w d \<inter> window_ids w d \<noteq> {} \<Longrightarrow> files w d \<noteq> None \<and> store_papers w d \<noteq> []"
proof -
  assume "store_ids w d \<inter> window_ids w d \<noteq> {}"
  then have "store_ids w d \<noteq> {}" by blast
  then have "store_papers w d \<noteq> []" by (auto simp: store_ids_image)
  then show ?thesis using store_papers_nonempty by blast
qed

lemma load_other_day:
  "d' \<noteq> d \<Longrightarrow> load_papers_data (w\<lparr>files := (files w)(d := x)\<rparr>) d' = load_papers_data w d'"
  by (simp add: load_papers_data_unfold split: option.splits)

lemma load_history_other_day:
  "d' \<noteq> d \<Longrightarrow> load_history (w\<lparr>files := (files w)(d := x)\<rparr>) d' = load_history w d'"
  by (simp add: load_history_def history_file_def)

lemma window_ids_frame:
  "window_ids (w\<lparr>files := (files w)(d := x)\<rparr>) d = window_ids w d"
  by (simp add: window_ids_def history_ids_def load_history_other_day)

lemma history_ids_padded: "first_padded_day \<le> h \<Longrightarrow> history_ids w h = store_ids w h"
  by (simp add: history_ids_def store_ids_def load_history_padded)

lemma window_ids_stores:
  "first_padded_day \<le> d - 7 \<Longrightarrow> window_ids w d = stores_window w d"
  by (simp add: window_ids_def stores_window_def history_ids_padded)

lemma load_written:
  assumes "\<not> read_fails w d" "\<forall>p\<in>set ps. hashable (dict_get p ''id'' (JStr ''''))"
  shows "load_papers_data (w\<lparr>files := (files w)(d \<mapsto> map (\<lambda>p. Doc (JObj p)) ps)\<rparr>) d
           = (ps, paper_id ` set ps)"
  using assms load_lines_saved [of ps "[]" "{}"]
  by (simp add: load_papers_data_unfold)

lemma load_removed:
  "load_papers_data (w\<lparr>files := (files w)(d := None)\<rparr>) d = ([], {})"
  by (simp add: load_papers_data_unfold)

lemma survivors_hashable:
  "p \<in> set (survivors w d) \<Longrightarrow> hashable (dict_get p ''id'' (JStr ''''))"
  by (auto simp: survivors_def store_papers_def dest: load_papers_data_hashable)

lemma survivors_written:
  assumes "store_papers w d \<noteq> []"
  shows "load_papers_data (w\<lparr>files := (files w)(d \<mapsto> map (\<lambda>p. Doc (JObj p)) (survivors w d))\<rparr>) d
           = (survivors w d, paper_id ` set (survivors w d))"
proof -
  from assms have "\<not> read_fails w d"
    using load_papers_data_nonempty [of w d] by (simp add: store_papers_def)
  then show ?thesis
    by (rule load_written) (simp add: survivors_hashable)
qed

section \<open>Deduplication: the normal form of its outcome\<close>

text \<open>
  The lookback succeeds from day 8 on and then collects the history of the date. The
  outcome of \<open>perform_deduplication\<close> is then a chain of tests on the store, its history
  and the environment.
\<close>

lemma collect_history_Inr:
  "collect_history w d is acc = Inr h \<Longrightarrow>
     h = acc \<union> (\<Union>i\<in>set is. history_ids w (d - int i)) \<and> (\<forall>i\<in>set is. 1 \<le> d - int i)"
  by (induction "is" arbitrary: acc) (auto simp: history_ids_def split: if_splits)

lemma collect_history_ok:
  "\<forall>i\<in>set is. 1 \<le> d - int i \<Longrightarrow>
     collect_history w d is acc = Inr (acc \<union> (\<Union>i\<in>set is. history_ids w (d - int i)))"
  by (induction "is" arbitrary: acc) (auto simp: history_ids_def)

lemma window_ids_nat: "window_ids w d = (\<Union>i\<in>set [1..<history_days + 1]. history_ids w (d - int i))"
proof -
  have "int ` set [1..<history_days + 1] = {1..7}"
    by (auto simp: history_days_def image_int_atLeastLessThan)
  then have "(\<Union>i\<in>{1..7}. history_ids w (d - i)) = (\<Union>i\<in>int ` set [1..<history_days + 1]. history_ids w (d - i))"
    by simp
  then show ?thesis
    by (simp add: window_ids_def)
qed


lemma collect_history_window:
  "collect_history w d [1..<history_days + 1] {} =
     (if d \<le> 7 then Inl OverflowError else Inr (window_ids w d))"
proof (cases "d \<le> 7")
  case True
  have "collect_history w d [1..<history_days + 1] {} = Inl OverflowError"
  proof (cases "collect_history w d [1..<history_days + 1] {}")
    case (Inl e)
    then show ?thesis by (cases e) (auto simp: history_days_def upt_rec split: if_splits)
  next
    case (Inr h)
    from collect_history_Inr [OF Inr] have "\<forall>i\<in>set [1..<history_days + 1]. 1 \<le> d - int i" by simp
    then have "7 \<in> set [1..<history_days + 1] \<longrightarrow> 1 \<le> d - int 7" by blast
    then have "1 \<le> d - int 7" by (simp add: history_days_def)
    with True show ?thesis by simp
  qed
  with True show ?thesis by simp
next
  case False
  then have "\<forall>i\<in>set [1..<history_days + 1]. 1 \<le> d - int i"
    by (auto simp: history_days_def)
  from collect_history_ok [OF this, of w "{}"] False show ?thesis
    by (simp add: window_ids_nat)
qed

lemma survivors_filter:
  "filter (\<lambda>p. paper_id p \<notin> store_ids w d \<inter> window_ids w d) (store_papers w d) = survivors w d"
  unfolding survivors_def
  by (rule filter_cong) (auto simp: store_ids_def store_papers_def load_papers_data_ids)

lemma perform_deduplication_cases:
  "perform_deduplication d w =
     (if files w d = None \<or> store_papers w d = [] then (''no_data'', w)
      else if d \<le> 7 then (''error'', w)
      else if store_ids w d \<inter> window_ids w d = {} then (''has_new_content'', w)
      else if survivors w d \<noteq> [] then
        (if write_fails w d then (''error'', w\<lparr>files := (files w)(d \<mapsto> torn w d)\<rparr>)
         else (''has_new_content'',
               w\<lparr>files := (files w)(d \<mapsto> map (\<lambda>p. Doc (JObj p)) (survivors w d))\<rparr>))
      else if remove_fails w d then (''no_new_content'', w)
      else (''no_new_content'', w\<lparr>files := (files w)(d := None)\<rparr>))"
proof -
  obtain ps ids where l: "load_papers_data w d = (ps, ids)" by (cases "load_papers_data w d")
  then have sp: "store_papers w d = ps" and si: "store_ids w d = ids"
    by (simp_all add: store_papers_def store_ids_def)
  have flt: "filter (\<lambda>p. paper_id p \<in> ids \<longrightarrow> paper_id p \<notin> window_ids w d) ps = survivors w d"
    using survivors_filter [of w d] by (simp add: sp si)
  show ?thesis
  proof (cases "files w d = None \<or> ps = []")
    case True
    then show ?thesis
      unfolding perform_deduplication_def collect_history_window
      by (auto simp: path_exists_def l sp)
  next
    case ex: False
    show ?thesis
    proof (cases "d \<le> 7")
      case True
      with ex show ?thesis
        unfolding perform_deduplication_def collect_history_window
        by (simp add: path_exists_def l sp)
    next
      case far: False
      show ?thesis
      proof (cases "ids \<inter> window_ids w d = {}")
        case True
        with ex far show ?thesis
          unfolding perform_deduplication_def collect_history_window
          by (simp add: path_exists_def l sp si)
      next
        case dup: False
        show ?thesis
        proof (cases "survivors w d = []")
          case True
          with ex far dup show ?thesis
            unfolding perform_deduplication_def collect_history_window
            by (auto simp: path_exists_def l sp si flt os_remove_def)
        next
          case False
          with ex far dup show ?thesis
            unfolding perform_deduplication_def collect_history_window
            by (simp add: path_exists_def l sp si flt save_papers_data_def)
        qed
      qed
    qed
  qed
qed

section \<open>Deduplication: the store and its history afterwards\<close>

text \<open>The example: the only record of 2025-07-22 was already stored four days earlier.\<close>

lemma files_A_today:
  "store_papers (env files_A rd wr rm) 739454 = (if rd then [] else [paper_A])"
  by (simp add: store_papers_def load_papers_data_unfold env_def files_A_def paper_A_def
      dict_get_def Let_def)

lemma files_A_window:
  assumes "\<not> rd"
  shows "JStr ''A'' \<in> window_ids (env files_A rd wr rm) 739454"
proof -
  from assms have "JStr ''A'' \<in> history_ids (env files_A rd wr rm) (739454 - 4)"
    by (simp add: history_ids_def load_history_def history_file_def first_padded_day_def
        load_file_def env_def files_A_def paper_A_def dict_get_def Let_def)
  moreover have "(4::int) \<in> {1..7}" by simp
  ultimately show ?thesis unfolding window_ids_def by blast
qed

lemma files_A_survivors:
  "\<not> rd \<Longrightarrow> survivors (env files_A rd wr rm) 739454 = []"
  using files_A_window [of rd wr rm]
  by (simp add: survivors_def files_A_today paper_id_def dict_get_def paper_A_def)

lemma files_A_duplicate:
  "\<not> rd \<Longrightarrow>
   store_ids (env files_A rd wr rm) 739454 \<inter> window_ids (env files_A rd wr rm) 739454 \<noteq> {}"
  using files_A_window [of rd wr rm]
  by (auto simp: store_ids_image files_A_today paper_id_def dict_get_def paper_A_def)

lemma files_A_outcome:
  "perform_deduplication 739454 (env files_A False wr rm)
     = (''no_new_content'',
        if rm then env files_A False wr rm else env (files_A(739454 := None)) False wr rm)"
  using files_A_duplicate [of False wr rm] files_A_survivors [of False wr rm]
  by (simp add: perform_deduplication_cases files_A_today)
    (simp add: env_def files_A_def)

lemma load_lines_records:
  "load_lines ls papers ids = Inr (ps, is) \<Longrightarrow> ps = papers @ file_records ls"
  by (induction ls papers ids rule: load_lines.induct) (auto simp: Let_def split: if_splits)

lemma file_records_written [simp]: "file_records (map (\<lambda>p. Doc (JObj p)) ps) = ps"
  by (induction ps) auto

lemma readable_file_papers: "store_readable w d \<Longrightarrow> file_papers w d = store_papers w d"
  by (auto simp: store_readable_def file_papers_def store_papers_def load_papers_data_unfold
      split: option.splits sum.splits dest: load_lines_records)

lemma readable_file_ids: "store_readable w d \<Longrightarrow> file_ids w d = store_ids w d"
  by (simp add: file_ids_def readable_file_papers store_ids_image)

lemma files_ABC_today:
  "store_papers (env files_ABC False wr rm) 739454 = [paper_A, paper_B, paper_C]"
  by (simp add: store_papers_def load_papers_data_unfold env_def files_ABC_def paper_A_def
      paper_B_def paper_C_def dict_get_def Let_def)

lemma files_ABC_history:
  "history_ids (env files_ABC False wr rm) (739454 - i) = (if i = 1 then {JStr ''B''} else {})"
  if "1 \<le> i" "i \<le> 7"
  using that
  by (simp add: history_ids_def load_history_def history_file_def first_padded_day_def
      load_file_def env_def files_ABC_def paper_B_def dict_get_def Let_def)

lemma files_ABC_window: "window_ids (env files_ABC False wr rm) 739454 = {JStr ''B''}"
  by (auto simp: window_ids_def files_ABC_history split: if_splits)

lemma files_ABC_survivors:
  "survivors (env files_ABC False wr rm) 739454 = [paper_A, paper_C]"
  by (simp add: survivors_def files_ABC_today files_ABC_window paper_id_def dict_get_def
      paper_A_def paper_B_def paper_C_def)

lemma files_ABC_outcome:
  "perform_deduplication 739454 (env files_ABC False False rm)
     = (''has_new_content'',
        env (files_ABC(739454 \<mapsto> [Doc (JObj paper_A), Doc (JObj paper_C)])) False False rm)"
  by (simp add: perform_deduplication_cases files_ABC_today files_ABC_survivors
      files_ABC_window store_ids_image paper_id_def dict_get_def paper_A_def paper_B_def
      paper_C_def)
    (simp add: env_def files_ABC_def)


lemma dedup_other_day:
  "h \<noteq> d \<Longrightarrow> files (snd (perform_deduplication d w)) h = files w h
     \<and> read_fails (snd (perform_deduplication d w)) h = read_fails w h"
  by (simp add: perform_deduplication_cases)

lemma dedup_other_store:
  assumes "h \<noteq> d"
  shows "file_ids (snd (perform_deduplication d w)) h = file_ids w h"
    and "store_ids (snd (perform_deduplication d w)) h = store_ids w h"
  using dedup_other_day [OF assms, of w]
  by (simp_all add: file_ids_def file_papers_def store_ids_def load_papers_data_def)

lemma readable_files_window:
  assumes "history_readable w d"
  shows "files_window (snd (perform_deduplication d w)) d
    = stores_window (snd (perform_deduplication d w)) d"
proof -
  have "file_ids (snd (perform_deduplication d w)) (d - i)
      = store_ids (snd (perform_deduplication d w)) (d - i)" if "i \<in> {1..7}" for i
  proof -
    from that have "d - i \<noteq> d" by simp
    moreover from that assms have "store_readable w (d - i)" by (simp add: history_readable_def)
    ultimately show ?thesis by (simp add: dedup_other_store readable_file_ids)
  qed
  then show ?thesis by (simp add: files_window_def stores_window_def)
qed

lemma files_ABC_readable: "history_readable (env files_ABC False wr rm) 739454"
  by (auto simp: history_readable_def store_readable_def env_def files_ABC_def paper_B_def
      dict_get_def Let_def)

text \<open>
  C1 (as amended). Let the store of the day be absent or read without an exception, and
  let the seven days before lie in the years from 1000 on, where the history files are the
  stores of those days. When \<open>perform_deduplication\<close> ends with a status other than
  \<open>error\<close> and, in case the status is \<open>no_new_content\<close>, the day's file is gone, no
  record left in the day's file has an identifier that the stores of the seven days before
  hold, as the code reads them (a store that is absent or cannot be read holding none). When
  each of these seven stores is absent or read without an exception, no record left in the
  day's file has the identifier of a record in their files.
\<close>

theorem dedup_disjoint_from_history:
  assumes "store_readable w d"
    and "first_padded_day \<le> d - 7"
    and "fst (perform_deduplication d w) \<noteq> ''error''"
    and "fst (perform_deduplication d w) = ''no_new_content'' \<longrightarrow>
           files (snd (perform_deduplication d w)) d = None"
  shows "file_ids (snd (perform_deduplication d w)) d
           \<inter> stores_window (snd (perform_deduplication d w)) d = {}
    \<and> (history_readable w d \<longrightarrow>
         file_ids (snd (perform_deduplication d w)) d
           \<inter> files_window (snd (perform_deduplication d w)) d = {})"
proof -
  let ?r = "perform_deduplication d w"
  have win: "stores_window w' d = window_ids w' d" for w'
    using assms(2) by (simp add: window_ids_stores)
  from assms(2) have far: "\<not> d \<le> 7" by (simp add: first_padded_day_def)
  consider (nodata) "files w d = None \<or> store_papers w d = []"
    | (fresh) "files w d \<noteq> None" "store_papers w d \<noteq> []"
        "store_ids w d \<inter> window_ids w d = {}"
    | (some) "files w d \<noteq> None" "store_papers w d \<noteq> []"
        "store_ids w d \<inter> window_ids w d \<noteq> {}" "survivors w d \<noteq> []"
    | (none) "files w d \<noteq> None" "store_papers w d \<noteq> []"
        "store_ids w d \<inter> window_ids w d \<noteq> {}" "survivors w d = []"
    by blast
  then have "file_ids (snd ?r) d \<inter> stores_window (snd ?r) d = {}"
  proof cases
    case nodata
    then have "?r = (''no_data'', w)" by (simp add: perform_deduplication_cases)
    moreover from nodata have "file_papers w d = []"
      using readable_file_papers [OF assms(1)] by (auto simp: file_papers_def)
    ultimately show ?thesis by (simp add: file_ids_def)
  next
    case fresh
    with far have "?r = (''has_new_content'', w)" by (simp add: perform_deduplication_cases)
    with fresh show ?thesis by (simp add: win readable_file_ids [OF assms(1)])
  next
    case some
    with assms(3) far have r: "?r = (''has_new_content'',
        w\<lparr>files := (files w)(d \<mapsto> map (\<lambda>p. Doc (JObj p)) (survivors w d))\<rparr>)"
      by (auto simp: perform_deduplication_cases split: if_splits)
    have "file_ids (snd ?r) d = paper_id ` set (survivors w d)"
      by (simp add: r file_ids_def file_papers_def)
    moreover have "window_ids (snd ?r) d = window_ids w d"
      by (simp add: r window_ids_frame)
    ultimately show ?thesis
      by (auto simp: win survivors_def)
  next
    case none
    with far have r: "?r = (''no_new_content'',
        if remove_fails w d then w else w\<lparr>files := (files w)(d := None)\<rparr>)"
      by (simp add: perform_deduplication_cases)
    with assms(4) none(1) have "\<not> remove_fails w d" by auto
    with r show ?thesis
      by (simp add: file_ids_def file_papers_def)
  qed
  then show ?thesis by (simp add: readable_files_window)
qed

theorem dedup_disjoint_from_history_witness:
  "store_readable (env files_ABC False False False) 739454
   \<and> first_padded_day \<le> 739454 - 7
   \<and> fst (perform_deduplication 739454 (env files_ABC False False False)) = ''has_new_content''
   \<and> files (snd (perform_deduplication 739454 (env files_ABC False False False))) 739454
       = Some [Doc (JObj paper_A), Doc (JObj paper_C)]
   \<and> JStr ''B'' \<in> stores_window (env files_ABC False False False) 739454
   \<and> file_ids (snd (perform_deduplication 739454 (env files_ABC False False False))) 739454
        \<inter> stores_window (snd (perform_deduplication 739454 (env files_ABC False False False)))
            739454
        = {}
   \<and> history_readable (env files_ABC False False False) 739454
   \<and> JStr ''B''
        \<in> files_window (snd (perform_deduplication 739454 (env files_ABC False False False)))
            739454
   \<and> file_ids (snd (perform_deduplication 739454 (env files_ABC False False False))) 739454
        \<inter> files_window (snd (perform_deduplication 739454 (env files_ABC False False False)))
            739454
        = {}"
proof -
  note hr = files_ABC_readable [of False False]
  have fb: "JStr ''B''
        \<in> files_window (snd (perform_deduplication 739454 (env files_ABC False False False)))
            739454"
  proof -
    have "JStr ''B'' \<in> file_ids (env files_ABC False False False) (739454 - 1)"
      by (simp add: file_ids_def file_papers_def env_def files_ABC_def paper_id_def
          dict_get_def paper_B_def)
    then have "JStr ''B'' \<in> file_ids
        (snd (perform_deduplication 739454 (env files_ABC False False False))) (739454 - 1)"
      by (simp add: dedup_other_store)
    moreover have "(1::int) \<in> {1..7}" by simp
    ultimately show ?thesis unfolding files_window_def by blast
  qed
  have rd: "store_readable (env files_ABC False False False) 739454"
    by (simp add: store_readable_def env_def files_ABC_def paper_A_def paper_B_def paper_C_def
        dict_get_def Let_def)
  have pad: "first_padded_day \<le> 739454 - 7" by (simp add: first_padded_day_def)
  have st: "fst (perform_deduplication 739454 (env files_ABC False False False))
      = ''has_new_content''"
    by (simp add: files_ABC_outcome)
  have f: "files (snd (perform_deduplication 739454 (env files_ABC False False False))) 739454
       = Some [Doc (JObj paper_A), Doc (JObj paper_C)]"
    by (simp add: files_ABC_outcome) (simp add: env_def)
  have b: "JStr ''B'' \<in> stores_window (env files_ABC False False False) 739454"
    using window_ids_stores [OF pad, of "env files_ABC False False False", symmetric]
    by (simp add: files_ABC_window)
  from st have ne: "fst (perform_deduplication 739454 (env files_ABC False False False))
      \<noteq> ''error''" by simp
  from st have nn: "fst (perform_deduplication 739454 (env files_ABC False False False))
      = ''no_new_content'' \<longrightarrow>
        files (snd (perform_deduplication 739454 (env files_ABC False False False))) 739454 = None"
    by simp
  from dedup_disjoint_from_history [OF rd pad ne nn] rd pad st f b hr fb show ?thesis by blast
qed

text \<open>
  C1 as stated fails: when the deletion of a store of duplicates only is refused, the status
  is \<open>no_new_content\<close> and the record \<open>A\<close>, which the store of four days before holds,
  is still in the day's file.
\<close>

theorem dedup_disjoint_from_history_counterexample:
  "\<not> (fst (perform_deduplication 739454 (env files_A False False True)) \<noteq> ''error''
        \<longrightarrow> file_ids (snd (perform_deduplication 739454 (env files_A False False True))) 739454
            \<inter> stores_window (snd (perform_deduplication 739454 (env files_A False False True)))
                739454
            = {})"
proof -
  have pad: "first_padded_day \<le> 739454 - 7" by (simp add: first_padded_day_def)
  have rd: "store_readable (env files_A False False True) 739454"
    by (simp add: store_readable_def env_def files_A_def paper_A_def dict_get_def Let_def)
  have "file_ids (env files_A False False True) 739454
      \<inter> stores_window (env files_A False False True) 739454 \<noteq> {}"
    using files_A_duplicate [of False False True] window_ids_stores [OF pad]
    by (simp add: readable_file_ids [OF rd])
  then show ?thesis by (simp add: files_A_outcome)
qed

text \<open>
  C4 (as amended). After a run that does not end in \<open>error\<close>: a store without duplicates
  leaves the whole environment as it was; when duplicates were found and records survive,
  the day's file holds exactly the survivors; when none survives and the deletion is not
  refused, the day's file is gone.
\<close>

theorem dedup_store_afterwards:
  assumes "fst (perform_deduplication d w) \<noteq> ''error''"
  shows "(store_ids w d \<inter> window_ids w d = {} \<longrightarrow> snd (perform_deduplication d w) = w)
    \<and> (store_ids w d \<inter> window_ids w d \<noteq> {} \<and> survivors w d \<noteq> [] \<longrightarrow>
         files (snd (perform_deduplication d w)) d
           = Some (map (\<lambda>p. Doc (JObj p)) (survivors w d))
         \<and> store_papers (snd (perform_deduplication d w)) d = survivors w d)
    \<and> (store_ids w d \<inter> window_ids w d \<noteq> {} \<and> survivors w d = [] \<and> \<not> remove_fails w d \<longrightarrow>
         files (snd (perform_deduplication d w)) d = None)"
proof -
  have dup: "files w d \<noteq> None \<and> store_papers w d \<noteq> []"
    if "store_ids w d \<inter> window_ids w d \<noteq> {}"
    using that by (rule duplicates_need_records)
  have a: "store_ids w d \<inter> window_ids w d = {} \<longrightarrow> snd (perform_deduplication d w) = w"
    by (simp add: perform_deduplication_cases)
  have b: "files (snd (perform_deduplication d w)) d
           = Some (map (\<lambda>p. Doc (JObj p)) (survivors w d))
         \<and> store_papers (snd (perform_deduplication d w)) d = survivors w d"
    if "store_ids w d \<inter> window_ids w d \<noteq> {}" "survivors w d \<noteq> []"
  proof -
    from dup [OF that(1)] that assms
    have "perform_deduplication d w = (''has_new_content'',
        w\<lparr>files := (files w)(d \<mapsto> map (\<lambda>p. Doc (JObj p)) (survivors w d))\<rparr>)"
      by (auto simp: perform_deduplication_cases split: if_splits)
    with dup [OF that(1)] show ?thesis
      by (simp add: store_papers_def survivors_written)
  qed
  have c: "files (snd (perform_deduplication d w)) d = None"
    if "store_ids w d \<inter> window_ids w d \<noteq> {}" "survivors w d = []" "\<not> remove_fails w d"
    using dup [OF that(1)] that assms
    by (auto simp: perform_deduplication_cases split: if_splits)
  from a b c show ?thesis by blast
qed

theorem dedup_store_afterwards_witness:
  "fst (perform_deduplication 739454 (env files_A False False False)) \<noteq> ''error''
   \<and> store_ids (env files_A False False False) 739454
        \<inter> window_ids (env files_A False False False) 739454 \<noteq> {}
   \<and> survivors (env files_A False False False) 739454 = []
   \<and> \<not> remove_fails (env files_A False False False) 739454
   \<and> files (snd (perform_deduplication 739454 (env files_A False False False))) 739454 = None"
proof -
  have st: "fst (perform_deduplication 739454 (env files_A False False False)) \<noteq> ''error''"
    by (simp add: files_A_outcome)
  have rm: "\<not> remove_fails (env files_A False False False) 739454"
    by (simp add: env_def)
  from dedup_store_afterwards [OF st] files_A_duplicate [of False False False]
    files_A_survivors [of False False False] st rm
  show ?thesis by blast
qed

text \<open>
  C4 as stated fails: no record survives, the deletion is refused, and the file is still
  there.
\<close>

theorem dedup_store_afterwards_counterexample:
  "survivors (env files_A False False True) 739454 = []
   \<and> store_ids (env files_A False False True) 739454
        \<inter> window_ids (env files_A False False True) 739454 \<noteq> {}
   \<and> files (snd (perform_deduplication 739454 (env files_A False False True))) 739454
        = Some [Doc (JObj paper_A)]"
  using files_A_duplicate [of False False True] files_A_survivors [of False False True]
  by (simp add: files_A_outcome) (simp add: env_def files_A_def)

section \<open>Deduplication: where the status error comes from\<close>

text \<open>
  C7 (as amended). \<open>perform_deduplication\<close> ends in \<open>error\<close> exactly when records
  were read from the day's store and either the lookback leaves the calendar (the date is
  one of its first seven days) or the rewrite of the store with the surviving records fails.
  The other failures do not lead there: a store that cannot be read, or holds a line that
  cannot be decoded, counts as empty (\<open>no_data\<close> for the day's store, no identifiers for a
  day of the history), and a refused deletion still gives \<open>no_new_content\<close>, with nothing
  changed.
\<close>

theorem dedup_error_sources:
  "(fst (perform_deduplication d w) = ''error'' \<longleftrightarrow>
      files w d \<noteq> None \<and> store_papers w d \<noteq> [] \<and>
      (d \<le> 7 \<or> (store_ids w d \<inter> window_ids w d \<noteq> {} \<and> survivors w d \<noteq> [] \<and> write_fails w d)))
   \<and> (files w d = Some ls \<and> (read_fails w d \<or> Malformed \<in> set ls) \<longrightarrow>
        perform_deduplication d w = (''no_data'', w))
   \<and> (files w h = Some ls \<and> (read_fails w h \<or> Malformed \<in> set ls) \<longrightarrow> store_ids w h = {})
   \<and> (7 < d \<and> store_ids w d \<inter> window_ids w d \<noteq> {} \<and> survivors w d = [] \<and> remove_fails w d \<longrightarrow>
        perform_deduplication d w = (''no_new_content'', w))"
proof -
  have a: "fst (perform_deduplication d w) = ''error'' \<longleftrightarrow>
      files w d \<noteq> None \<and> store_papers w d \<noteq> [] \<and>
      (d \<le> 7 \<or> (store_ids w d \<inter> window_ids w d \<noteq> {} \<and> survivors w d \<noteq> [] \<and> write_fails w d))"
    by (simp add: perform_deduplication_cases)
  have b: "perform_deduplication d w = (''no_data'', w)"
    if "files w d = Some ls" "read_fails w d \<or> Malformed \<in> set ls"
    using that store_unreadable [of w d] by (simp add: perform_deduplication_cases)
  have c: "store_ids w h = {}"
    if "files w h = Some ls" "read_fails w h \<or> Malformed \<in> set ls"
    using that store_unreadable [of w h] by simp
  have e: "perform_deduplication d w = (''no_new_content'', w)"
    if "7 < d" "store_ids w d \<inter> window_ids w d \<noteq> {}" "survivors w d = []" "remove_fails w d"
    using that duplicates_need_records [OF that(2)] by (simp add: perform_deduplication_cases)
  from a b c e show ?thesis by blast
qed

theorem dedup_error_sources_witness:
  "files (env files_A False False True) 739454 = Some [Doc (JObj paper_A)]
   \<and> (7::int) < 739454
   \<and> store_ids (env files_A False False True) 739454
        \<inter> window_ids (env files_A False False True) 739454 \<noteq> {}
   \<and> survivors (env files_A False False True) 739454 = []
   \<and> remove_fails (env files_A False False True) 739454
   \<and> perform_deduplication 739454 (env files_A False False True)
        = (''no_new_content'', env files_A False False True)
   \<and> fst (perform_deduplication 739454 (env files_A False False True)) \<noteq> ''error''"
proof -
  have f: "files (env files_A False False True) 739454 = Some [Doc (JObj paper_A)]"
    and r: "remove_fails (env files_A False False True) 739454"
    by (simp_all add: env_def files_A_def)
  note t = dedup_error_sources [of 739454 "env files_A False False True" "[Doc (JObj paper_A)]" 739454]
  from t f r files_A_duplicate [of False False True] files_A_survivors [of False False True]
  have "perform_deduplication 739454 (env files_A False False True)
        = (''no_new_content'', env files_A False False True)"
    by simp
  with f r files_A_duplicate [of False False True] files_A_survivors [of False False True]
  show ?thesis by simp
qed

text \<open>
  C7 as stated fails: the day's store exists and cannot be read, and the status is
  \<open>no_data\<close>, not \<open>error\<close>.
\<close>

theorem dedup_error_sources_counterexample:
  "files (env files_A True False False) 739454 \<noteq> None
   \<and> read_fails (env files_A True False False) 739454
   \<and> fst (perform_deduplication 739454 (env files_A True False False)) = ''no_data''"
  by (simp add: perform_deduplication_cases files_A_today) (simp add: env_def files_A_def)

section \<open>Same-day merge: the loop over the records\<close>

text \<open>
  The loop of \<open>perform_merge\<close> keeps one entry for each identifier key, in the order of
  first occurrence; the entry of a key is the first record with that identifier, its category
  extended by the categories of the later ones.
\<close>

lemma set_first_seen [simp]: "set (first_seen xs) = set xs"
  by (induction xs) auto

lemma distinct_first_seen [simp]: "distinct (first_seen xs)"
  by (induction xs) auto

lemma first_seen_snoc:
  "first_seen (xs @ [x]) = (if x \<in> set xs then first_seen xs else first_seen xs @ [x])"
  by (induction xs) auto

lemma find_snoc:
  "List.find P (xs @ [x]) = (case List.find P xs of None \<Rightarrow> (if P x then Some x else None) | Some y \<Rightarrow> Some y)"
  by (induction xs) auto

lemma py_iadd_elems: "py_iadd c y = Inr c' \<Longrightarrow> elems c' = elems c @ elems y"
  by (induction c y rule: py_iadd.induct) (auto simp: elems_def split: sum.splits)

lemma paper_id_present: "map_of p ''id'' = Some i \<Longrightarrow> paper_id p = py_key i"
  by (simp add: paper_id_def dict_get_def)

lemma paper_id_update_category [simp]:
  "paper_id (AList.update ''category'' c p) = paper_id p"
  by (simp add: paper_id_def dict_get_def update_conv')

lemma cat_elems_update [simp]: "cat_elems (AList.update ''category'' c p) = elems c"
  by (simp add: cat_elems_def dict_get_def update_conv')

lemma cat_elems_present: "map_of p ''category'' = Some c \<Longrightarrow> cat_elems p = elems c"
  by (simp add: cat_elems_def dict_get_def)

lemma merged_entry_other:
  "merged_entry seen k r \<Longrightarrow> paper_id item \<noteq> k \<Longrightarrow> merged_entry (seen @ [item]) k r"
  by (auto simp: merged_entry_def find_snoc)

lemma merged_entry_new:
  "k \<notin> paper_id ` set seen \<Longrightarrow> paper_id item = k \<Longrightarrow> map_of item ''id'' \<noteq> None \<Longrightarrow>
     merged_entry (seen @ [item]) k item"
proof -
  assume a: "k \<notin> paper_id ` set seen" "paper_id item = k" "map_of item ''id'' \<noteq> None"
  then have no: "\<forall>p\<in>set seen. paper_id p \<noteq> k" by blast
  then have "List.find (\<lambda>p. paper_id p = k) seen = None"
    by (simp add: find_None_iff)
  moreover from no have "filter (\<lambda>p. paper_id p = k) seen = []"
    by (simp add: filter_empty_conv)
  ultimately show ?thesis using a
    by (simp add: merged_entry_def find_snoc)
qed

lemma merged_entry_merge:
  assumes "merged_entry seen k r" "paper_id item = k" "map_of r ''category'' = Some c"
    "py_iadd c (dict_get item ''category'' (JArr [])) = Inr c'"
  shows "merged_entry (seen @ [item]) k (AList.update ''category'' c' r)"
proof -
  from assms(1) obtain base where b: "List.find (\<lambda>p. paper_id p = k) seen = Some base"
    "map_of base ''id'' \<noteq> None"
    "r = base \<or> (\<exists>c. r = AList.update ''category'' c base)"
    "cat_elems r = concat (map cat_elems (filter (\<lambda>p. paper_id p = k) seen))"
    by (auto simp: merged_entry_def)
  from b(3) have "\<exists>c. AList.update ''category'' c' r = AList.update ''category'' c base"
    by auto
  moreover have "elems c' = cat_elems r @ cat_elems item"
    using py_iadd_elems [OF assms(4)] cat_elems_present [OF assms(3)] by (simp add: cat_elems_def)
  ultimately show ?thesis using b assms(2)
    by (simp add: merged_entry_def find_snoc)
qed

lemma merge_items_invariant:
  assumes "merge_items ps acc = Inr m"
    and "map fst acc = first_seen (map paper_id seen)"
    and "\<forall>k r. map_of acc k = Some r \<longrightarrow> merged_entry seen k r"
  shows "map fst m = first_seen (map paper_id (seen @ ps))
    \<and> (\<forall>k r. map_of m k = Some r \<longrightarrow> merged_entry (seen @ ps) k r)"
  using assms
proof (induction ps arbitrary: acc seen)
  case Nil
  then show ?case by simp
next
  case (Cons item rest)
  from Cons.prems(1) obtain i where i: "map_of item ''id'' = Some i" "hashable i"
    by (auto split: option.splits if_splits)
  then have k: "paper_id item = py_key i" by (simp add: paper_id_present)
  have keys: "fst ` set acc = paper_id ` set seen"
    using Cons.prems(2) by (metis set_first_seen set_map)
  show ?case
  proof (cases "map_of acc (py_key i)")
    case None
    then have fresh: "py_key i \<notin> paper_id ` set seen"
      using keys by (simp add: map_of_eq_None_iff)
    from None i Cons.prems(1) have run: "merge_items rest (acc @ [(py_key i, item)]) = Inr m"
      by simp
    have k1: "map fst (acc @ [(py_key i, item)]) = first_seen (map paper_id (seen @ [item]))"
      using Cons.prems(2) fresh k by (simp add: first_seen_snoc)
    have k2: "\<forall>k r. map_of (acc @ [(py_key i, item)]) k = Some r \<longrightarrow> merged_entry (seen @ [item]) k r"
    proof (intro allI impI)
      fix k' r assume h: "map_of (acc @ [(py_key i, item)]) k' = Some r"
      show "merged_entry (seen @ [item]) k' r"
      proof (cases "map_of acc k'")
        case None
        with h have "k' = py_key i" "r = item"
          by (auto simp: map_add_def split: if_splits)
        with fresh k i show ?thesis by (simp add: merged_entry_new)
      next
        case (Some r')
        with h have "r = r'" by (simp add: map_add_def)
        moreover from Some \<open>map_of acc (py_key i) = None\<close> have "k' \<noteq> py_key i" by auto
        ultimately show ?thesis
          using Some Cons.prems(3) k by (simp add: merged_entry_other)
      qed
    qed
    from Cons.IH [OF run k1 k2] show ?thesis by simp
  next
    case (Some r)
    with i Cons.prems(1) obtain c c' where c: "map_of r ''category'' = Some c"
      "py_iadd c (dict_get item ''category'' (JArr [])) = Inr c'"
      and run: "merge_items rest (AList.update (py_key i) (AList.update ''category'' c' r) acc) = Inr m"
      by (auto split: option.splits sum.splits)
    from Some have old: "py_key i \<in> paper_id ` set seen"
      using keys by (metis domI dom_map_of_conv_image_fst)
    have k1: "map fst (AList.update (py_key i) (AList.update ''category'' c' r) acc)
        = first_seen (map paper_id (seen @ [item]))"
      using Cons.prems(2) old k keys by (simp add: first_seen_snoc update_keys)
    have k2: "\<forall>k' r'. map_of (AList.update (py_key i) (AList.update ''category'' c' r) acc) k' = Some r'
        \<longrightarrow> merged_entry (seen @ [item]) k' r'"
    proof (intro allI impI)
      fix k' r'
      assume h: "map_of (AList.update (py_key i) (AList.update ''category'' c' r) acc) k' = Some r'"
      show "merged_entry (seen @ [item]) k' r'"
      proof (cases "k' = py_key i")
        case True
        with h have "r' = AList.update ''category'' c' r" by (simp add: update_conv')
        moreover from Some Cons.prems(3) have "merged_entry seen (py_key i) r" by simp
        ultimately show ?thesis using True k c by (simp add: merged_entry_merge)
      next
        case False
        with h have "map_of acc k' = Some r'" by (simp add: update_conv')
        with Cons.prems(3) False k show ?thesis by (simp add: merged_entry_other)
      qed
    qed
    from Cons.IH [OF run k1 k2] show ?thesis by simp
  qed
qed

lemma set_add_all_keys:
  "py_key ` set (set_add_all acc xs) = py_key ` set acc \<union> py_key ` set xs"
  by (induction xs arbitrary: acc) auto

lemma set_add_all_distinct:
  "distinct (map py_key acc) \<Longrightarrow> distinct (map py_key (set_add_all acc xs))"
  by (induction xs arbitrary: acc) auto

lemma set_add_all_subset: "set (set_add_all acc xs) \<subseteq> set acc \<union> set xs"
proof (induction xs arbitrary: acc)
  case Nil
  then show ?case by simp
next
  case (Cons a xs)
  from Cons.IH [of "if py_key a \<in> py_key ` set acc then acc else acc @ [a]"]
  show ?case by (auto split: if_splits)
qed

lemma set_add_all_keep:
  "distinct (map py_key (acc @ xs)) \<Longrightarrow> set_add_all acc xs = acc @ xs"
  by (induction xs arbitrary: acc) auto

lemma list_of_set_Inr:
  assumes "set_listing so" "list_of_set so c = Inr cs"
  shows "distinct (map py_key cs) \<and> py_key ` set cs = py_key ` set (elems c)
    \<and> list_all hashable cs"
proof -
  from assms(2) obtain xs where xs: "py_iter c = Inr xs" "list_all hashable xs"
    "cs = so (set_add_all [] xs)"
    by (auto simp: list_of_set_def split: sum.splits if_splits)
  from assms(1) have m: "mset cs = mset (set_add_all [] xs)"
    by (simp add: xs set_listing_def)
  then have s: "set cs = set (set_add_all [] xs)" by (rule mset_eq_setD)
  from m have "mset (map py_key cs) = mset (map py_key (set_add_all [] xs))" by simp
  then have "distinct (map py_key cs) = distinct (map py_key (set_add_all [] xs))"
    by (rule mset_eq_imp_distinct_iff)
  then have "distinct (map py_key cs)" by (simp add: set_add_all_distinct)
  moreover have "py_key ` set cs = py_key ` set (elems c)"
    using set_add_all_keys [of "[]" xs] by (simp add: s elems_def xs(1))
  moreover have "list_all hashable cs"
    using set_add_all_subset [of "[]" xs] xs(2) by (auto simp: s list_all_iff)
  ultimately show ?thesis by simp
qed

lemma set_categories_Inr:
  "set_categories so vs = Inr rs \<Longrightarrow>
     list_all2 (\<lambda>v r. \<exists>c cs. map_of v ''category'' = Some c \<and> list_of_set so c = Inr cs
        \<and> r = AList.update ''category'' (JArr cs) v) vs rs"
  by (induction vs arbitrary: rs) (auto split: option.splits sum.splits)

lemma merge_items_ids:
  "merge_items ps acc = Inr m \<Longrightarrow> \<forall>p\<in>set ps. \<exists>i. map_of p ''id'' = Some i \<and> hashable i"
  by (induction ps arbitrary: acc) (auto split: option.splits sum.splits if_splits)

lemma merge_items_no_id:
  "p \<in> set ps \<Longrightarrow> map_of p ''id'' = None \<Longrightarrow> \<exists>e. merge_items ps acc = Inl e"
  using merge_items_ids [of ps acc] by (cases "merge_items ps acc") auto

lemma find_paper_id:
  "List.find (\<lambda>p. paper_id p = k) ps = Some base \<Longrightarrow> paper_id base = k \<and> base \<in> set ps"
  by (auto simp: find_Some_iff)

lemma merged_entry_key: "merged_entry ps k r \<Longrightarrow> paper_id r = k"
  by (auto simp: merged_entry_def dest: find_paper_id)

lemma merged_entry_record:
  assumes "set_listing so" "merged_entry ps k v" "map_of v ''category'' = Some c"
    "list_of_set so c = Inr cs"
  shows "merged_record ps (AList.update ''category'' (JArr cs) v)"
proof -
  from assms(2) obtain base where b: "List.find (\<lambda>p. paper_id p = k) ps = Some base"
    "v = base \<or> (\<exists>c. v = AList.update ''category'' c base)"
    "cat_elems v = concat (map cat_elems (filter (\<lambda>p. paper_id p = k) ps))"
    by (auto simp: merged_entry_def)
  from b(2) have u: "AList.update ''category'' (JArr cs) v = AList.update ''category'' (JArr cs) base"
    by auto
  from assms(2) have k: "paper_id v = k" by (rule merged_entry_key)
  from assms(3) have "elems c = cat_elems v" by (simp add: cat_elems_present)
  with b(3) have "set (elems c) = (\<Union>p\<in>set (filter (\<lambda>p. paper_id p = k) ps). set (cat_elems p))"
    by simp
  with list_of_set_Inr [OF assms(1,4)] b(1) u k find_paper_id [OF b(1)] show ?thesis
    unfolding merged_record_def by (intro exI [of _ base] exI [of _ cs]) simp
qed


lemma merged_entry_shape:
  assumes "set_listing so" "merged_entry ps k v"
    "\<forall>p\<in>set ps. \<exists>i. map_of p ''id'' = Some i \<and> hashable i"
    "list_of_set so c = Inr cs"
  shows "merged_shape (AList.update ''category'' (JArr cs) v)"
proof -
  from assms(2) obtain base where b: "List.find (\<lambda>p. paper_id p = k) ps = Some base"
    "v = base \<or> (\<exists>c. v = AList.update ''category'' c base)"
    by (auto simp: merged_entry_def)
  from find_paper_id [OF b(1)] assms(3) obtain i where i: "map_of base ''id'' = Some i" "hashable i"
    by blast
  from b(2) i have "map_of (AList.update ''category'' (JArr cs) v) ''id'' = Some i"
    by (auto simp: update_conv')
  moreover have "map_of (AList.update ''category'' (JArr cs) v) ''category'' = Some (JArr cs)"
    by (simp add: update_conv')
  ultimately show ?thesis
    using list_of_set_Inr [OF assms(1,4)] i(2) by (simp add: merged_shape_def)
qed

lemma merge_papers_Inr:
  assumes "set_listing so" "merge_papers so ps = Inr result"
  shows "map paper_id result = first_seen (map paper_id ps)
    \<and> (\<forall>r\<in>set result. merged_record ps r \<and> merged_shape r)"
proof -
  from assms(2) obtain m where m: "merge_items ps [] = Inr m"
    and sc: "set_categories so (map snd m) = Inr result"
    by (auto simp: merge_papers_def split: sum.splits)
  from merge_items_invariant [OF m, of "[]"]
  have keys: "map fst m = first_seen (map paper_id ps)"
    and ent: "\<forall>k r. map_of m k = Some r \<longrightarrow> merged_entry ps k r"
    by simp_all
  from keys have dist: "distinct (map fst m)" by simp
  have entry: "merged_entry ps (fst (m ! i)) (snd (m ! i))" if "i < length m" for i
  proof -
    from that have "(fst (m ! i), snd (m ! i)) \<in> set m" by simp
    with dist have "map_of m (fst (m ! i)) = Some (snd (m ! i))" by (rule map_of_is_SomeI)
    with ent show ?thesis by simp
  qed
  let ?Q = "\<lambda>v r. \<exists>c cs. map_of v ''category'' = Some c \<and> list_of_set so c = Inr cs
        \<and> r = AList.update ''category'' (JArr cs) v"
  from set_categories_Inr [OF sc] have la: "list_all2 ?Q (map snd m) result" .
  then have len: "length result = length m" using list_all2_lengthD [OF la] by simp
  have step: "?Q (snd (m ! i)) (result ! i)" if "i < length m" for i
    using la that by (simp add: list_all2_conv_all_nth)
  have rec: "merged_record ps (result ! i) \<and> merged_shape (result ! i)
      \<and> paper_id (result ! i) = fst (m ! i)"
    if "i < length m" for i
  proof -
    from step [OF that] obtain c cs where c: "map_of (snd (m ! i)) ''category'' = Some c"
      "list_of_set so c = Inr cs" "result ! i = AList.update ''category'' (JArr cs) (snd (m ! i))"
      by blast
    from merged_entry_record [OF assms(1) entry [OF that] c(1,2)] c(3)
      merged_entry_shape [OF assms(1) entry [OF that] merge_items_ids [OF m] c(2)]
      merged_entry_key [OF entry [OF that]]
    show ?thesis by simp
  qed
  have "map paper_id result = map fst m"
    by (rule nth_equalityI) (simp_all add: len rec)
  moreover have "\<forall>r\<in>set result. merged_record ps r \<and> merged_shape r"
    using rec len by (auto simp: in_set_conv_nth)
  ultimately show ?thesis using keys by simp
qed

lemma perform_merge_cases:
  "perform_merge so d w =
     (if files w d = None \<or> store_papers w d = [] then (''no_data'', w)
      else case merge_papers so (store_papers w d) of
          Inl e \<Rightarrow> (''error'', w)
        | Inr result \<Rightarrow>
            if write_fails w d then (''error'', w\<lparr>files := (files w)(d \<mapsto> torn w d)\<rparr>)
            else (''merge_success'',
                  w\<lparr>files := (files w)(d \<mapsto> map (\<lambda>p. Doc (JObj p)) result)\<rparr>))"
proof -
  obtain ps ids where l: "load_papers_data w d = (ps, ids)" by (cases "load_papers_data w d")
  then have sp: "store_papers w d = ps" by (simp add: store_papers_def)
  show ?thesis
    by (auto simp: perform_merge_def path_exists_def l sp save_papers_data_def split: sum.splits)
qed

lemma merged_record_hashable:
  assumes "merged_record (store_papers w d) r"
  shows "hashable (dict_get r ''id'' (JStr ''''))"
proof -
  from assms obtain base cs where b: "List.find (\<lambda>p. paper_id p = paper_id r) (store_papers w d) = Some base"
    "r = AList.update ''category'' (JArr cs) base"
    by (auto simp: merged_record_def)
  from find_paper_id [OF b(1)] have "base \<in> set (fst (load_papers_data w d))"
    by (simp add: store_papers_def)
  then have "hashable (dict_get base ''id'' (JStr ''''))" by (rule load_papers_data_hashable)
  then show ?thesis by (simp add: b(2) dict_get_def update_conv')
qed

section \<open>Same-day merge: one record for each identifier\<close>

text \<open>The example: the two records of the paper 123 become one, with both categories.\<close>

lemma files_M_records: "store_papers (env files_M False wr rm) 739454 = [paper_IS, paper_MKT]"
  by (simp add: store_papers_def load_papers_data_unfold env_def files_M_def paper_IS_def
      paper_MKT_def dict_get_def Let_def)

lemma files_M_merged:
  "merge_papers so [paper_IS, paper_MKT]
     = Inr [[(''id'', JStr ''123''), (''category'', JArr (so [JStr ''IS'', JStr ''MKT'']))]]"
  by (simp add: merge_papers_def paper_IS_def paper_MKT_def dict_get_def list_of_set_def)

lemma files_M_outcome:
  "perform_merge so 739454 (env files_M False False rm)
     = (''merge_success'',
        env (files_M(739454 \<mapsto>
          [Doc (JObj [(''id'', JStr ''123''),
                      (''category'', JArr (so [JStr ''IS'', JStr ''MKT'']))])])) False False rm)"
  by (simp add: perform_merge_cases files_M_records files_M_merged)
    (simp add: env_def files_M_def)

text \<open>
  C2. When \<open>perform_merge\<close> succeeds, the store holds one record for each identifier of
  the records it held, in the order in which the identifiers first occurred; each is the
  first record with its identifier, its category replaced by a list without repetition of
  the category values of all records with that identifier.
\<close>

theorem merge_one_record_per_id:
  assumes "set_listing so" and "perform_merge so d w = (''merge_success'', w')"
  shows "\<exists>result. files w' d = Some (map (\<lambda>p. Doc (JObj p)) result)
    \<and> store_papers w' d = result
    \<and> map paper_id result = first_seen (map paper_id (store_papers w d))
    \<and> distinct (map paper_id result)
    \<and> (\<forall>r\<in>set result. merged_record (store_papers w d) r)"
proof -
  from assms(2) obtain result where r: "merge_papers so (store_papers w d) = Inr result"
    and ne: "store_papers w d \<noteq> []" and wf: "\<not> write_fails w d"
    and w': "w' = w\<lparr>files := (files w)(d \<mapsto> map (\<lambda>p. Doc (JObj p)) result)\<rparr>"
    by (auto simp: perform_merge_cases split: if_splits sum.splits)
  from merge_papers_Inr [OF assms(1) r]
  have ids: "map paper_id result = first_seen (map paper_id (store_papers w d))"
    and rec: "\<forall>r\<in>set result. merged_record (store_papers w d) r" by simp_all
  from ne have "\<not> read_fails w d" by (simp add: store_papers_nonempty)
  moreover from rec have "\<forall>p\<in>set result. hashable (dict_get p ''id'' (JStr ''''))"
    by (blast intro: merged_record_hashable)
  ultimately have "store_papers w' d = result"
    by (simp add: w' store_papers_def load_written)
  with ids rec show ?thesis
    by (intro exI [of _ result]) (simp add: w')
qed


theorem merge_one_record_per_id_witness:
  "set_listing (\<lambda>xs. xs)
   \<and> perform_merge (\<lambda>xs. xs) 739454 (env files_M False False False)
       = (''merge_success'',
          env (files_M(739454 \<mapsto>
            [Doc (JObj [(''id'', JStr ''123''),
                        (''category'', JArr [JStr ''IS'', JStr ''MKT''])])])) False False False)
   \<and> (\<exists>result.
        files (env (files_M(739454 \<mapsto>
            [Doc (JObj [(''id'', JStr ''123''),
                        (''category'', JArr [JStr ''IS'', JStr ''MKT''])])])) False False False)
          739454 = Some (map (\<lambda>p. Doc (JObj p)) result)
        \<and> map paper_id result
            = first_seen (map paper_id (store_papers (env files_M False False False) 739454))
        \<and> list_all (merged_record (store_papers (env files_M False False False) 739454)) result)"
proof -
  have l: "set_listing (\<lambda>xs. xs)" by (simp add: set_listing_def)
  have m: "perform_merge (\<lambda>xs. xs) 739454 (env files_M False False False)
       = (''merge_success'',
          env (files_M(739454 \<mapsto>
            [Doc (JObj [(''id'', JStr ''123''),
                        (''category'', JArr [JStr ''IS'', JStr ''MKT''])])])) False False False)"
    by (simp add: files_M_outcome)
  from merge_one_record_per_id [OF l m] l m show ?thesis
    by (auto simp: list_all_iff)
qed

section \<open>Same-day merge: merging a merged store\<close>

lemma merge_items_distinct:
  assumes "distinct (map fst acc @ map paper_id ps)"
    and "\<forall>p\<in>set ps. \<exists>i. map_of p ''id'' = Some i \<and> hashable i"
  shows "merge_items ps acc = Inr (acc @ map (\<lambda>p. (paper_id p, p)) ps)"
  using assms
proof (induction ps arbitrary: acc)
  case Nil
  then show ?case by simp
next
  case (Cons p ps)
  from Cons.prems(2) obtain i where i: "map_of p ''id'' = Some i" "hashable i" by auto
  then have k: "paper_id p = py_key i" by (simp add: paper_id_present)
  from Cons.prems(1) have "py_key i \<notin> fst ` set acc" by (auto simp: k)
  then have none: "map_of acc (py_key i) = None" by (simp add: map_of_eq_None_iff)
  from Cons.prems have "merge_items ps (acc @ [(py_key i, p)])
      = Inr ((acc @ [(py_key i, p)]) @ map (\<lambda>p. (paper_id p, p)) ps)"
    by (intro Cons.IH) (auto simp: k)
  with i none k show ?case by simp
qed

lemma merged_shape_category:
  "merged_shape r \<Longrightarrow>
     \<exists>cs. map_of r ''category'' = Some (JArr cs) \<and> list_all hashable cs \<and> distinct (map py_key cs)"
  by (auto simp: merged_shape_def split: option.splits json.splits)

lemma merged_shape_id:
  "merged_shape r \<Longrightarrow> \<exists>i. map_of r ''id'' = Some i \<and> hashable i"
  by (auto simp: merged_shape_def split: option.splits)

lemma set_categories_merged:
  "\<forall>r\<in>set rs. merged_shape r \<Longrightarrow> set_categories so rs = Inr (map (reorder_category so) rs)"
proof (induction rs)
  case Nil
  then show ?case by simp
next
  case (Cons r rs)
  from Cons.prems merged_shape_category [of r] obtain cs where
    cs: "map_of r ''category'' = Some (JArr cs)" "list_all hashable cs" "distinct (map py_key cs)"
    by auto
  from cs(3) have "set_add_all [] cs = cs"
    using set_add_all_keep [of "[]" cs] by simp
  with cs have "list_of_set so (JArr cs) = Inr (so cs)" by (simp add: list_of_set_def)
  with cs(1) Cons show ?case by (simp add: reorder_category_def)
qed

lemma merge_papers_merged:
  assumes "distinct (map paper_id rs)" "\<forall>r\<in>set rs. merged_shape r"
  shows "merge_papers so rs = Inr (map (reorder_category so) rs)"
proof -
  from assms(2) have "\<forall>p\<in>set rs. \<exists>i. map_of p ''id'' = Some i \<and> hashable i"
    by (blast dest: merged_shape_id)
  with assms(1) have "merge_items rs [] = Inr (map (\<lambda>p. (paper_id p, p)) rs)"
    using merge_items_distinct [of "[]" rs] by simp
  then show ?thesis
    using set_categories_merged [OF assms(2)] by (simp add: merge_papers_def comp_def)
qed

lemma reorder_category_same: "merged_shape r \<Longrightarrow> reorder_category (\<lambda>xs. xs) r = r"
  by (auto simp: reorder_category_def update_triv dest!: merged_shape_category)

text \<open>
  C8 (as amended). Merging a store that a merge has written succeeds and leaves the same
  records, in the same order; each keeps its contents, but its category list is listed anew
  by the iteration order of the second run. The store is identical when that order returns
  the list as stored; an iteration order in general permutes it.
\<close>

theorem merge_again:
  assumes "set_listing so" and "perform_merge so d w = (''merge_success'', w1)"
  shows "\<exists>result. files w1 d = Some (map (\<lambda>p. Doc (JObj p)) result)
    \<and> perform_merge so2 d w1
        = (''merge_success'',
           w1\<lparr>files := (files w1)(d \<mapsto> map (\<lambda>p. Doc (JObj (reorder_category so2 p))) result)\<rparr>)
    \<and> (\<forall>r\<in>set result. \<exists>cs. map_of r ''category'' = Some (JArr cs)
          \<and> reorder_category so2 r = AList.update ''category'' (JArr (so2 cs)) r
          \<and> (set_listing so2 \<longrightarrow> mset (so2 cs) = mset cs))
    \<and> ((\<forall>xs. so2 xs = xs) \<longrightarrow> perform_merge so2 d w1 = (''merge_success'', w1))"
proof -
  from assms(2) obtain result where r: "merge_papers so (store_papers w d) = Inr result"
    and ne: "store_papers w d \<noteq> []" and wf: "\<not> write_fails w d"
    and w1: "w1 = w\<lparr>files := (files w)(d \<mapsto> map (\<lambda>p. Doc (JObj p)) result)\<rparr>"
    by (auto simp: perform_merge_cases split: if_splits sum.splits)
  from merge_papers_Inr [OF assms(1) r]
  have ids: "map paper_id result = first_seen (map paper_id (store_papers w d))"
    and shape: "\<forall>r\<in>set result. merged_shape r" by simp_all
  from ids have dist: "distinct (map paper_id result)" by simp
  from ids ne have rne: "result \<noteq> []" by (cases "store_papers w d") auto
  from ne have rd: "\<not> read_fails w d" by (simp add: store_papers_nonempty)
  from shape have "\<forall>p\<in>set result. hashable (dict_get p ''id'' (JStr ''''))"
    by (auto simp: dict_get_def dest!: merged_shape_id)
  with rd have sp: "store_papers w1 d = result"
    by (simp add: w1 store_papers_def load_written)
  have f: "files w1 d = Some (map (\<lambda>p. Doc (JObj p)) result)" by (simp add: w1)
  have run: "perform_merge so' d w1
        = (''merge_success'',
           w1\<lparr>files := (files w1)(d \<mapsto> map (\<lambda>p. Doc (JObj (reorder_category so' p))) result)\<rparr>)"
    for so'
  proof -
    from wf have "\<not> write_fails w1 d" by (simp add: w1)
    with rne show ?thesis
      by (simp add: perform_merge_cases sp f merge_papers_merged [OF dist shape] comp_def)
  qed
  have cat: "\<forall>r\<in>set result. \<exists>cs. map_of r ''category'' = Some (JArr cs)
          \<and> reorder_category so2 r = AList.update ''category'' (JArr (so2 cs)) r
          \<and> (set_listing so2 \<longrightarrow> mset (so2 cs) = mset cs)"
  proof
    fix r assume "r \<in> set result"
    with shape merged_shape_category [of r] obtain cs where "map_of r ''category'' = Some (JArr cs)"
      by blast
    then show "\<exists>cs. map_of r ''category'' = Some (JArr cs)
          \<and> reorder_category so2 r = AList.update ''category'' (JArr (so2 cs)) r
          \<and> (set_listing so2 \<longrightarrow> mset (so2 cs) = mset cs)"
      by (simp add: reorder_category_def set_listing_def)
  qed
  have same: "perform_merge so2 d w1 = (''merge_success'', w1)" if "\<forall>xs. so2 xs = xs"
  proof -
    from that have "so2 = (\<lambda>xs. xs)" by auto
    moreover have "map (\<lambda>p. Doc (JObj (reorder_category (\<lambda>xs. xs) p))) result
        = map (\<lambda>p. Doc (JObj p)) result"
      using shape by (simp add: reorder_category_same)
    ultimately show ?thesis
      using run [of so2] f by (simp add: map_upd_triv)
  qed
  from f run [of so2] cat same show ?thesis by blast
qed

theorem merge_again_witness:
  "set_listing rev
   \<and> perform_merge rev 739454 (env files_M False False False)
       = (''merge_success'',
          env (files_M(739454 \<mapsto>
            [Doc (JObj [(''id'', JStr ''123''),
                        (''category'', JArr [JStr ''MKT'', JStr ''IS''])])])) False False False)
   \<and> (\<exists>result.
        files (env (files_M(739454 \<mapsto>
            [Doc (JObj [(''id'', JStr ''123''),
                        (''category'', JArr [JStr ''MKT'', JStr ''IS''])])])) False False False)
          739454 = Some (map (\<lambda>p. Doc (JObj p)) result)
        \<and> fst (perform_merge rev 739454
            (env (files_M(739454 \<mapsto>
              [Doc (JObj [(''id'', JStr ''123''),
                          (''category'', JArr [JStr ''MKT'', JStr ''IS''])])])) False False False))
          = ''merge_success'')"
proof -
  let ?w1 = "env (files_M(739454 \<mapsto>
            [Doc (JObj [(''id'', JStr ''123''),
                        (''category'', JArr [JStr ''MKT'', JStr ''IS''])])])) False False False"
  have l: "set_listing rev" by (simp add: set_listing_def)
  have m: "perform_merge rev 739454 (env files_M False False False) = (''merge_success'', ?w1)"
    by (simp add: files_M_outcome)
  have "\<exists>result. files ?w1 739454 = Some (map (\<lambda>p. Doc (JObj p)) result)
      \<and> fst (perform_merge rev 739454 ?w1) = ''merge_success''"
    using merge_again [OF l m, of rev]
    by (elim exE conjE) (rule exI, simp)
  with l m show ?thesis by blast
qed

text \<open>
  C8 as stated fails: with an iteration order that lists a set in the reverse of the order
  of insertion, the second merge turns the category list of the paper 123 around.
\<close>

theorem merge_again_counterexample:
  "set_listing rev
   \<and> files (snd (perform_merge rev 739454 (env files_M False False False))) 739454
       = Some [Doc (JObj [(''id'', JStr ''123''),
                          (''category'', JArr [JStr ''MKT'', JStr ''IS''])])]
   \<and> files (snd (perform_merge rev 739454
         (snd (perform_merge rev 739454 (env files_M False False False))))) 739454
       = Some [Doc (JObj [(''id'', JStr ''123''),
                          (''category'', JArr [JStr ''IS'', JStr ''MKT''])])]"
  by (simp add: files_M_outcome set_listing_def)
    (simp add: perform_merge_cases store_papers_def load_papers_data_unfold env_def dict_get_def
      merge_papers_def list_of_set_def Let_def)

section \<open>Same-day merge: its status\<close>

lemma set_update_subset: "set (AList.update k v al) \<subseteq> insert (k, v) (set al)"
  by (induction al) auto

lemma record_ok_parts:
  assumes "record_ok p"
  shows "\<exists>i cs. map_of p ''id'' = Some i \<and> hashable i
     \<and> map_of p ''category'' = Some (JArr cs) \<and> list_all hashable cs"
proof (cases "map_of p ''id''")
  case None
  with assms show ?thesis by (simp add: record_ok_def)
next
  case (Some i)
  with assms have h: "hashable i"
    and c: "(case map_of p ''category'' of Some (JArr cs) \<Rightarrow> list_all hashable cs | _ \<Rightarrow> False)"
    by (simp_all add: record_ok_def)
  from c obtain cs where "map_of p ''category'' = Some (JArr cs)" "list_all hashable cs"
    by (cases "map_of p ''category''"; cases "the (map_of p ''category'')") simp_all
  with Some h show ?thesis by blast
qed

lemma merge_items_total:
  assumes "\<forall>p\<in>set ps. record_ok p"
    and "\<forall>k r. (k, r) \<in> set acc \<longrightarrow> (\<exists>cs. map_of r ''category'' = Some (JArr cs) \<and> list_all hashable cs)"
  shows "\<exists>m. merge_items ps acc = Inr m
    \<and> (\<forall>k r. (k, r) \<in> set m \<longrightarrow> (\<exists>cs. map_of r ''category'' = Some (JArr cs) \<and> list_all hashable cs))"
  using assms
proof (induction ps arbitrary: acc)
  case Nil
  then show ?case by simp
next
  case (Cons p ps)
  from Cons.prems(1) have "record_ok p" by simp
  from record_ok_parts [OF this] obtain i ys where
    p: "map_of p ''id'' = Some i" "hashable i" "map_of p ''category'' = Some (JArr ys)"
    "list_all hashable ys" by blast
  from Cons.prems(1) have rest: "\<forall>p\<in>set ps. record_ok p" by simp
  show ?case
  proof (cases "map_of acc (py_key i)")
    case None
    have inv: "\<forall>k r. (k, r) \<in> set (acc @ [(py_key i, p)]) \<longrightarrow>
        (\<exists>cs. map_of r ''category'' = Some (JArr cs) \<and> list_all hashable cs)"
    proof (intro allI impI)
      fix k r assume "(k, r) \<in> set (acc @ [(py_key i, p)])"
      then consider "(k, r) \<in> set acc" | "r = p" by auto
      then show "\<exists>cs. map_of r ''category'' = Some (JArr cs) \<and> list_all hashable cs"
        using Cons.prems(2) p(3,4) by cases blast+
    qed
    from Cons.IH [OF rest inv] None p(1,2) show ?thesis by simp
  next
    case (Some r)
    then have "(py_key i, r) \<in> set acc" by (rule map_of_SomeD)
    with Cons.prems(2) obtain cs where cs: "map_of r ''category'' = Some (JArr cs)"
      "list_all hashable cs" by blast
    let ?r = "AList.update ''category'' (JArr (cs @ ys)) r"
    have new: "map_of ?r ''category'' = Some (JArr (cs @ ys))" "list_all hashable (cs @ ys)"
      using cs(2) p(4) by (simp_all add: update_conv')
    have inv: "\<forall>k r'. (k, r') \<in> set (AList.update (py_key i) ?r acc) \<longrightarrow>
        (\<exists>cs. map_of r' ''category'' = Some (JArr cs) \<and> list_all hashable cs)"
    proof (intro allI impI)
      fix k r' assume "(k, r') \<in> set (AList.update (py_key i) ?r acc)"
      with set_update_subset [of "py_key i" ?r acc]
      consider "(k, r') \<in> set acc" | "r' = ?r" by auto
      then show "\<exists>cs. map_of r' ''category'' = Some (JArr cs) \<and> list_all hashable cs"
        using Cons.prems(2) new by cases blast+
    qed
    have step: "py_iadd (JArr cs) (dict_get p ''category'' (JArr [])) = Inr (JArr (cs @ ys))"
      by (simp add: dict_get_def p(3))
    from Cons.IH [OF rest inv] Some p(1,2) cs(1) step show ?thesis by simp
  qed
qed

lemma set_categories_total:
  "\<forall>v\<in>set vs. \<exists>cs. map_of v ''category'' = Some (JArr cs) \<and> list_all hashable cs \<Longrightarrow>
     \<exists>rs. set_categories so vs = Inr rs"
proof (induction vs)
  case Nil
  then show ?case by simp
next
  case (Cons v vs)
  then obtain cs rs where "map_of v ''category'' = Some (JArr cs)" "list_all hashable cs"
    "set_categories so vs = Inr rs" by auto
  then show ?case by (simp add: list_of_set_def)
qed

lemma merge_papers_total:
  assumes "\<forall>p\<in>set ps. record_ok p"
  shows "\<exists>r. merge_papers so ps = Inr r"
proof -
  have "\<forall>k r. (k, r) \<in> set [] \<longrightarrow>
     (\<exists>cs. map_of (r::paper) ''category'' = Some (JArr cs) \<and> list_all hashable cs)" by simp
  from merge_items_total [OF assms this] obtain m where m: "merge_items ps [] = Inr m"
    "\<forall>k r. (k, r) \<in> set m \<longrightarrow> (\<exists>cs. map_of r ''category'' = Some (JArr cs) \<and> list_all hashable cs)"
    by blast
  from m(2) have "\<forall>v\<in>set (map snd m). \<exists>cs. map_of v ''category'' = Some (JArr cs) \<and> list_all hashable cs"
    by auto
  from set_categories_total [OF this, of so] m(1) show ?thesis
    by (auto simp: merge_papers_def)
qed

text \<open>
  C6 (as amended). \<open>perform_merge\<close> returns \<open>merge_success\<close> exactly when records
  were read from the store, merging them raised nothing and the result was written;
  \<open>no_data\<close> exactly when the file is absent or no records were read from it, which is
  also the case when the file cannot be read or holds a line that cannot be decoded;
  \<open>error\<close> exactly when records were read and merging them raised or writing the
  result failed. Merging raises nothing when every record has an identifier and a list as
  category.
\<close>

theorem merge_status:
  "(fst (perform_merge so d w) = ''merge_success'' \<longleftrightarrow>
      files w d \<noteq> None \<and> store_papers w d \<noteq> []
      \<and> (\<exists>r. merge_papers so (store_papers w d) = Inr r) \<and> \<not> write_fails w d)
   \<and> (fst (perform_merge so d w) = ''no_data'' \<longleftrightarrow> files w d = None \<or> store_papers w d = [])
   \<and> (fst (perform_merge so d w) = ''error'' \<longleftrightarrow>
      files w d \<noteq> None \<and> store_papers w d \<noteq> []
      \<and> ((\<exists>e. merge_papers so (store_papers w d) = Inl e) \<or> write_fails w d))
   \<and> (files w d = Some ls \<and> (read_fails w d \<or> Malformed \<in> set ls) \<longrightarrow>
        perform_merge so d w = (''no_data'', w))
   \<and> ((\<forall>p\<in>set (store_papers w d). record_ok p) \<longrightarrow>
        (\<exists>r. merge_papers so (store_papers w d) = Inr r))"
proof -
  have a: "fst (perform_merge so d w) = ''merge_success'' \<longleftrightarrow>
      files w d \<noteq> None \<and> store_papers w d \<noteq> []
      \<and> (\<exists>r. merge_papers so (store_papers w d) = Inr r) \<and> \<not> write_fails w d"
    by (cases "merge_papers so (store_papers w d)") (auto simp: perform_merge_cases)
  have b: "fst (perform_merge so d w) = ''no_data'' \<longleftrightarrow> files w d = None \<or> store_papers w d = []"
    by (cases "merge_papers so (store_papers w d)") (auto simp: perform_merge_cases)
  have c: "fst (perform_merge so d w) = ''error'' \<longleftrightarrow>
      files w d \<noteq> None \<and> store_papers w d \<noteq> []
      \<and> ((\<exists>e. merge_papers so (store_papers w d) = Inl e) \<or> write_fails w d)"
    by (cases "merge_papers so (store_papers w d)") (auto simp: perform_merge_cases)
  have e: "perform_merge so d w = (''no_data'', w)"
    if "files w d = Some ls" "read_fails w d \<or> Malformed \<in> set ls"
    using that store_unreadable [of w d] by (simp add: perform_merge_cases)
  have f: "\<exists>r. merge_papers so (store_papers w d) = Inr r"
    if "\<forall>p\<in>set (store_papers w d). record_ok p"
    using that by (rule merge_papers_total)
  from a b c e f show ?thesis by blast
qed

lemma files_bad_records: "store_papers (env files_bad rd wr rm) 739454 = []"
  by (simp add: store_papers_def load_papers_data_unfold env_def files_bad_def paper_A_def
      dict_get_def Let_def)

theorem merge_status_witness:
  "files (env files_bad False False False) 739454 = Some [Doc (JObj paper_A), Malformed]
   \<and> Malformed \<in> set [Doc (JObj paper_A), Malformed]
   \<and> perform_merge (\<lambda>xs. xs) 739454 (env files_bad False False False)
        = (''no_data'', env files_bad False False False)
   \<and> list_all record_ok (store_papers (env files_M False False False) 739454)
   \<and> (\<exists>r. merge_papers (\<lambda>xs. xs) (store_papers (env files_M False False False) 739454) = Inr r)"
proof -
  have f: "files (env files_bad False False False) 739454 = Some [Doc (JObj paper_A), Malformed]"
    by (simp add: env_def files_bad_def)
  have ok: "list_all record_ok (store_papers (env files_M False False False) 739454)"
    by (simp add: files_M_records record_ok_def paper_IS_def paper_MKT_def)
  from merge_status [of "\<lambda>xs. xs" 739454 "env files_bad False False False"
      "[Doc (JObj paper_A), Malformed]"] f
  have "perform_merge (\<lambda>xs. xs) 739454 (env files_bad False False False)
        = (''no_data'', env files_bad False False False)"
    by simp
  moreover from merge_status [of "\<lambda>xs. xs" 739454 "env files_M False False False"] ok
  have "\<exists>r. merge_papers (\<lambda>xs. xs) (store_papers (env files_M False False False) 739454) = Inr r"
    by (simp add: list_all_iff)
  ultimately show ?thesis using f ok by simp
qed

text \<open>
  C6 as stated fails: the second line of the store cannot be decoded, and the status is
  \<open>no_data\<close>, not \<open>error\<close>.
\<close>

theorem merge_status_counterexample:
  "files (env files_bad False False False) 739454 = Some [Doc (JObj paper_A), Malformed]
   \<and> fst (perform_merge (\<lambda>xs. xs) 739454 (env files_bad False False False)) = ''no_data''"
  by (simp add: perform_merge_cases files_bad_records) (simp add: env_def files_bad_def)

section \<open>A record without an identifier\<close>

lemma files_anon_records: "store_papers (env files_anon False wr rm) 739454 = [paper_anon]"
  by (simp add: store_papers_def load_papers_data_unfold env_def files_anon_def paper_anon_def
      dict_get_def Let_def)

lemma store_papers_readable: "store_papers w d \<noteq> [] \<Longrightarrow> store_readable w d"
  by (auto simp: store_papers_def load_papers_data_unfold store_readable_def
      split: option.splits if_splits sum.splits)

lemma file_papers_written:
  "file_papers (w\<lparr>files := (files w)(d \<mapsto> map (\<lambda>p. Doc (JObj p)) ps)\<rparr>) d = ps"
  by (simp add: file_papers_def)

lemma file_papers_removed: "file_papers (w\<lparr>files := (files w)(d := None)\<rparr>) d = []"
  by (simp add: file_papers_def)

text \<open>
  C10. When a record read from the store has no \<open>id\<close>, \<open>perform_merge\<close> ends in
  \<open>error\<close>, changing nothing, and the gate exits with 2. \<open>load_papers_data\<close> and
  \<open>perform_deduplication\<close> take the empty string as the identifier of such a record: the
  empty string is among the identifiers read from the store, and the deduplication (for a
  date after the first seven days, with writing and deleting not refused) keeps the record
  in the day's file, ending with \<open>has_new_content\<close>, when the empty string is not among
  the identifiers of the history, and removes it with the other duplicates when it is.
\<close>

theorem missing_id:
  assumes "p \<in> set (store_papers w d)" and "map_of p ''id'' = None"
  shows "perform_merge so d w = (''error'', w)
    \<and> main so d w = (2, w)
    \<and> paper_id p = JStr ''''
    \<and> JStr '''' \<in> store_ids w d
    \<and> (7 < d \<and> \<not> write_fails w d \<longrightarrow> fst (perform_deduplication d w) \<noteq> ''error'')
    \<and> (7 < d \<and> \<not> write_fails w d \<and> JStr '''' \<notin> window_ids w d \<longrightarrow>
          fst (perform_deduplication d w) = ''has_new_content''
          \<and> p \<in> set (file_papers (snd (perform_deduplication d w)) d))
    \<and> (7 < d \<and> \<not> write_fails w d \<and> \<not> remove_fails w d \<and> JStr '''' \<in> window_ids w d \<longrightarrow>
          fst (perform_deduplication d w)
            = (if survivors w d = [] then ''no_new_content'' else ''has_new_content'')
          \<and> file_papers (snd (perform_deduplication d w)) d = survivors w d
          \<and> p \<notin> set (file_papers (snd (perform_deduplication d w)) d))"
proof -
  from assms(1) have ne: "store_papers w d \<noteq> []" by auto
  then have ex: "files w d \<noteq> None" by (simp add: store_papers_nonempty)
  from merge_items_no_id [OF assms, of "[]"] have "\<exists>e. merge_papers so (store_papers w d) = Inl e"
    by (auto simp: merge_papers_def)
  with ne ex have m: "perform_merge so d w = (''error'', w)"
    by (auto simp: perform_merge_cases)
  then have g: "main so d w = (2, w)" by (simp add: main_def main_with_def)
  from assms(2) have i: "paper_id p = JStr ''''" by (simp add: paper_id_def dict_get_def)
  with assms(1) have s: "JStr '''' \<in> store_ids w d" by (force simp: store_ids_image)
  have e: "fst (perform_deduplication d w) \<noteq> ''error''" if "7 < d" "\<not> write_fails w d"
    using that by (simp add: perform_deduplication_cases)
  have fp: "file_papers w d = store_papers w d"
    using ne by (simp add: readable_file_papers store_papers_readable)
  have keep: "fst (perform_deduplication d w) = ''has_new_content''
          \<and> p \<in> set (file_papers (snd (perform_deduplication d w)) d)"
    if "7 < d" "\<not> write_fails w d" "JStr '''' \<notin> window_ids w d"
  proof -
    from that(3) i assms(1) have sv: "p \<in> set (survivors w d)" by (simp add: survivors_def)
    then have "survivors w d \<noteq> []" by auto
    with that(1,2) ne ex sv assms(1) fp show ?thesis
      by (simp add: perform_deduplication_cases file_papers_written)
  qed
  have drop: "fst (perform_deduplication d w)
            = (if survivors w d = [] then ''no_new_content'' else ''has_new_content'')
          \<and> file_papers (snd (perform_deduplication d w)) d = survivors w d
          \<and> p \<notin> set (file_papers (snd (perform_deduplication d w)) d)"
    if "7 < d" "\<not> write_fails w d" "\<not> remove_fails w d" "JStr '''' \<in> window_ids w d"
  proof -
    from that(4) s have dup: "store_ids w d \<inter> window_ids w d \<noteq> {}" by blast
    from that(4) i have sv: "p \<notin> set (survivors w d)" by (simp add: survivors_def)
    from that(1-3) ne ex dup have "fst (perform_deduplication d w)
            = (if survivors w d = [] then ''no_new_content'' else ''has_new_content'')
          \<and> file_papers (snd (perform_deduplication d w)) d = survivors w d"
      by (simp add: perform_deduplication_cases file_papers_written file_papers_removed)
    with sv show ?thesis by simp
  qed
  from m g i s e keep drop show ?thesis by blast
qed

lemma files_anon_window: "window_ids (env files_anon False wr rm) 739454 = {}"
  by (auto simp: window_ids_def history_ids_def load_history_def history_file_def
      first_padded_day_def load_file_def env_def files_anon_def)

lemma files_anon_again_records:
  "store_papers (env files_anon_again False wr rm) 739454 = [paper_anon, paper_A]"
  by (simp add: store_papers_def load_papers_data_unfold env_def files_anon_again_def
      paper_anon_def paper_A_def dict_get_def Let_def)

lemma files_anon_again_window:
  "JStr '''' \<in> window_ids (env files_anon_again False wr rm) 739454"
proof -
  have "JStr '''' \<in> history_ids (env files_anon_again False wr rm) (739454 - 1)"
    by (simp add: history_ids_def load_history_def history_file_def first_padded_day_def
        load_file_def env_def files_anon_again_def dict_get_def Let_def)
  moreover have "(1::int) \<in> {1..7}" by simp
  ultimately show ?thesis unfolding window_ids_def by blast
qed

theorem missing_id_witness:
  "paper_anon \<in> set (store_papers (env files_anon False False False) 739454)
   \<and> map_of paper_anon ''id'' = None
   \<and> perform_merge (\<lambda>xs. xs) 739454 (env files_anon False False False)
       = (''error'', env files_anon False False False)
   \<and> main (\<lambda>xs. xs) 739454 (env files_anon False False False)
       = (2, env files_anon False False False)
   \<and> JStr '''' \<in> store_ids (env files_anon False False False) 739454
   \<and> (7::int) < 739454
   \<and> \<not> write_fails (env files_anon False False False) 739454
   \<and> JStr '''' \<notin> window_ids (env files_anon False False False) 739454
   \<and> fst (perform_deduplication 739454 (env files_anon False False False)) = ''has_new_content''
   \<and> paper_anon
        \<in> set (file_papers (snd (perform_deduplication 739454 (env files_anon False False False)))
            739454)
   \<and> paper_anon \<in> set (store_papers (env files_anon_again False False False) 739454)
   \<and> \<not> write_fails (env files_anon_again False False False) 739454
   \<and> \<not> remove_fails (env files_anon_again False False False) 739454
   \<and> JStr '''' \<in> window_ids (env files_anon_again False False False) 739454
   \<and> paper_anon
        \<notin> set (file_papers
            (snd (perform_deduplication 739454 (env files_anon_again False False False))) 739454)"
proof -
  have a: "paper_anon \<in> set (store_papers (env files_anon False False False) 739454)"
    by (simp add: files_anon_records)
  have b: "map_of paper_anon ''id'' = None" by (simp add: paper_anon_def)
  have c: "\<not> write_fails (env files_anon False False False) 739454" by (simp add: env_def)
  have n: "JStr '''' \<notin> window_ids (env files_anon False False False) 739454"
    by (simp add: files_anon_window)
  have a': "paper_anon \<in> set (store_papers (env files_anon_again False False False) 739454)"
    by (simp add: files_anon_again_records)
  have c': "\<not> write_fails (env files_anon_again False False False) 739454"
    "\<not> remove_fails (env files_anon_again False False False) 739454"
    by (simp_all add: env_def)
  note y = files_anon_again_window [of False False]
  from missing_id [OF a b, of "\<lambda>xs. xs"] c n
  have first: "perform_merge (\<lambda>xs. xs) 739454 (env files_anon False False False)
       = (''error'', env files_anon False False False)
   \<and> main (\<lambda>xs. xs) 739454 (env files_anon False False False)
       = (2, env files_anon False False False)
   \<and> JStr '''' \<in> store_ids (env files_anon False False False) 739454
   \<and> fst (perform_deduplication 739454 (env files_anon False False False)) = ''has_new_content''
   \<and> paper_anon
        \<in> set (file_papers (snd (perform_deduplication 739454 (env files_anon False False False)))
            739454)"
    by simp
  have s7: "(7::int) < 739454" by simp
  from missing_id [OF a' b, of "\<lambda>xs. xs"] c' y s7
  have "paper_anon
        \<notin> set (file_papers
            (snd (perform_deduplication 739454 (env files_anon_again False False False))) 739454)"
    by blast
  with first a b c n a' c' y show ?thesis by simp
qed

section \<open>The workflow gate: exit codes\<close>

text \<open>
  C3. The exit code is the table's value at the merge status and the deduplication status.
  When the merge status is not \<open>merge_success\<close> the outcome is written without the
  deduplication at all (1 for \<open>no_data\<close>, 2 for anything else, in the state the merge
  left), so the deduplication is not run. Every run ends with 0, 1 or 2.
\<close>

theorem gate_exit_code:
  "fst (main_with merge dedup s) = gate_code (fst (merge s)) (fst (dedup (snd (merge s))))
   \<and> (fst (merge s) \<noteq> ''merge_success'' \<longrightarrow>
        main_with merge dedup s = (if fst (merge s) = ''no_data'' then 1 else 2, snd (merge s)))
   \<and> (fst (merge s) = ''merge_success'' \<longrightarrow>
        snd (main_with merge dedup s) = snd (dedup (snd (merge s))))
   \<and> fst (main_with merge dedup s) \<in> {0, 1, 2}
   \<and> fst (main so d w) =
        gate_code (fst (perform_merge so d w))
          (fst (perform_deduplication d (snd (perform_merge so d w))))"
proof -
  have table: "fst (main_with m dd t) = gate_code (fst (m t)) (fst (dd (snd (m t))))"
    for m dd :: "'t \<Rightarrow> string \<times> 't" and t
    by (simp add: main_with_def gate_code_def split_beta Let_def)
  have stop: "fst (merge s) \<noteq> ''merge_success'' \<longrightarrow>
        main_with merge dedup s = (if fst (merge s) = ''no_data'' then 1 else 2, snd (merge s))"
    by (simp add: main_with_def split_beta Let_def)
  have go: "fst (merge s) = ''merge_success'' \<longrightarrow>
        snd (main_with merge dedup s) = snd (dedup (snd (merge s)))"
    by (simp add: main_with_def split_beta Let_def)
  have range: "fst (main_with merge dedup s) \<in> {0, 1, 2}"
    by (simp add: main_with_def split_beta Let_def)
  show ?thesis
    using table [of merge dedup s] table [of "perform_merge so d" "perform_deduplication d" w]
      stop go range
    by (simp add: main_def)
qed

theorem gate_exit_code_witness:
  "fst ((\<lambda>u::unit. (''no_data'', u)) ()) \<noteq> ''merge_success''
   \<and> main_with (\<lambda>u::unit. (''no_data'', u)) (\<lambda>u. (''has_new_content'', u)) () = (1, ())
   \<and> fst ((\<lambda>u::unit. (''merge_success'', u)) ()) = ''merge_success''
   \<and> fst (main_with (\<lambda>u::unit. (''merge_success'', u)) (\<lambda>u. (''no_new_content'', u)) ()) = 1"
  using gate_exit_code [of "\<lambda>u::unit. (''no_data'', u)" "\<lambda>u. (''has_new_content'', u)" "()"]
    gate_exit_code [of "\<lambda>u::unit. (''merge_success'', u)" "\<lambda>u. (''no_new_content'', u)" "()"]
  by (simp add: gate_code_def)

section \<open>The crawl: what a listing page leads to\<close>

lemma date_less_trans: "date_less a b \<Longrightarrow> date_less b c \<Longrightarrow> date_less a c"
  by (cases a; cases b; cases c) auto

lemma date_less_before: "date_less a b \<Longrightarrow> \<not> date_less c b \<Longrightarrow> date_less a c"
  by (cases a; cases b; cases c) auto

lemma date_less_after: "date_less b a \<Longrightarrow> \<not> date_less b c \<Longrightarrow> date_less c a"
  by (cases a; cases b; cases c) auto

lemma min_date_later:
  "date_less t (min_date m ds) \<longleftrightarrow> (\<forall>d\<in>set (m # ds). date_less t d)"
proof (induction ds arbitrary: m)
  case Nil
  then show ?case by simp
next
  case (Cons d ds)
  have "date_less t (if date_less d m then d else m) \<longleftrightarrow> date_less t d \<and> date_less t m"
    by (auto intro: date_less_trans date_less_before)
  with Cons.IH [of "if date_less d m then d else m"] show ?case by auto
qed

lemma max_date_earlier:
  "date_less (max_date m ds) t \<longleftrightarrow> (\<forall>d\<in>set (m # ds). date_less d t)"
proof (induction ds arbitrary: m)
  case Nil
  then show ?case by simp
next
  case (Cons d ds)
  have "date_less (if date_less m d then d else m) t \<longleftrightarrow> date_less d t \<and> date_less m t"
    by (auto intro: date_less_trans date_less_after)
  with Cons.IH [of "if date_less m d then d else m"] show ?case by auto
qed

lemma detail_requests_matching:
  assumes "approved_dates papers = Inr ds"
    and "\<forall>p\<in>set (matching target category papers). map_of p ''id'' \<noteq> None"
  shows "detail_requests (strftime target) category papers
    = (map (\<lambda>p. DetailRequest (dict_get p ''id'' JNull) p) (matching target category papers), None)"
  using assms
proof (induction papers arbitrary: ds rule: approved_dates.induct)
  case 1
  then show ?case by simp
next
  case (2 p rest)
  from "2.prems"(1) obtain s where s: "dict_get p ''approved_date'' (JStr '''') = JStr s"
    by (cases "dict_get p ''approved_date'' (JStr '''')") simp_all
  let ?paper = "AList.update ''category'' (JArr [JStr category]) p"
  have s': "dict_get ?paper ''approved_date'' (JStr '''') = JStr s"
    using s by (simp add: dict_get_def update_conv')
  have dt: "date_text p = strip s" by (simp add: date_text_def s)
  from "2.prems"(1) s obtain ds' where rest: "approved_dates rest = Inr ds'"
    by (auto split: if_splits sum.splits)
  from "2.prems"(2) have ids: "\<forall>p\<in>set (matching target category rest). map_of p ''id'' \<noteq> None"
    by (auto split: if_splits)
  have ih: "detail_requests (strftime target) category rest
    = (map (\<lambda>p. DetailRequest (dict_get p ''id'' JNull) p) (matching target category rest), None)"
  proof (cases "strip s = []")
    case True
    from "2.IH"(1) [OF s True rest ids] show ?thesis .
  next
    case False
    from "2.prems"(1) s False obtain d where d: "strptime (strip s) = Inr d"
      by (auto split: sum.splits)
    from "2.IH"(2) [OF s False d rest ids] show ?thesis .
  qed
  show ?case
  proof (cases "strip s = strftime target")
    case True
    with "2.prems"(2) dt obtain i where "map_of ?paper ''id'' = Some i" by auto
    with True ih s' dt show ?thesis by (simp add: dict_get_def)
  next
    case False
    with ih s' dt show ?thesis by simp
  qed
qed simp_all

lemma matching_category:
  "p \<in> set (matching target category papers) \<Longrightarrow>
     map_of p ''category'' = Some (JArr [JStr category])"
  by (induction target category papers rule: matching.induct)
    (auto simp: update_conv' split: if_splits)


lemma matching_date_text:
  "p \<in> set (matching target category papers) \<Longrightarrow> date_text p = strftime target"
  by (induction target category papers rule: matching.induct)
    (auto simp: date_text_def dict_get_def update_conv' split: if_splits)

subsection \<open>Reading back a date that \<open>strftime\<close> wrote\<close>

declare decimal.simps [simp del]

lemma digit_cases: "k < 10 \<Longrightarrow> k \<in> {0, 1, 2, 3, 4, 5, 6, 7, 8, 9::nat}"
  by (simp only: insert_iff empty_iff) arith

lemma digit_val_digit: "n < 10 \<Longrightarrow> digit_val (digit_char n) = Some n"
  by (drule digit_cases) (auto simp: digit_val_def digit_char_def)

lemma digit_not_space: "n < 10 \<Longrightarrow> \<not> is_space (digit_char n)"
  by (drule digit_cases) (auto simp: is_space_def digit_char_def)

lemma decimal_1: "n < 10 \<Longrightarrow> decimal n = [digit_char n]"
  by (simp add: decimal.simps)

lemma decimal_2:
  "10 \<le> n \<Longrightarrow> n < 100 \<Longrightarrow> decimal n = [digit_char (n div 10), digit_char (n mod 10)]"
  by (subst decimal.simps) (simp add: decimal_1)



lemma decimal_snoc: "10 \<le> n \<Longrightarrow> decimal n = decimal (n div 10) @ [digit_char (n mod 10)]"
  by (subst decimal.simps) simp

lemma year_digits:
  assumes "1000 \<le> y" "y < 10000"
  shows "\<exists>a b c e. decimal y = [digit_char a, digit_char b, digit_char c, digit_char e]
    \<and> a < 10 \<and> b < 10 \<and> c < 10 \<and> e < 10 \<and> 1000 * a + 100 * b + 10 * c + e = y"
proof -
  define n1 where "n1 = y div 10"
  define n2 where "n2 = n1 div 10"
  define n3 where "n3 = n2 div 10"
  have e1: "y = 10 * n1 + y mod 10" by (simp add: n1_def)
  have e2: "n1 = 10 * n2 + n1 mod 10" by (simp add: n2_def)
  have e3: "n2 = 10 * n3 + n2 mod 10" by (simp add: n3_def)
  have b1: "100 \<le> n1" "n1 < 1000" using assms by (simp_all add: n1_def)
  have b2: "10 \<le> n2" "n2 < 100" using b1 by (simp_all add: n2_def)
  have b3: "n3 < 10" using b2 by (simp add: n3_def)
  have "decimal y = decimal n1 @ [digit_char (y mod 10)]"
    using assms by (simp add: decimal_snoc n1_def)
  also have "decimal n1 = decimal n2 @ [digit_char (n1 mod 10)]"
    using b1 by (simp add: decimal_snoc n2_def)
  also have "decimal n2 = decimal n3 @ [digit_char (n2 mod 10)]"
    using b2 by (simp add: decimal_snoc n3_def)
  also have "decimal n3 = [digit_char n3]" using b3 by (rule decimal_1)
  finally have d: "decimal y
      = [digit_char n3, digit_char (n2 mod 10), digit_char (n1 mod 10), digit_char (y mod 10)]"
    by simp
  have "1000 * n3 + 100 * (n2 mod 10) + 10 * (n1 mod 10) + y mod 10 = y"
    using e1 e2 e3 by linarith
  with d b3 show ?thesis by (intro exI conjI) (assumption, simp_all)
qed


lemma month_cases:
  "1 \<le> m \<Longrightarrow> m \<le> 12 \<Longrightarrow> m = 1 \<or> m = 2 \<or> m = 3 \<or> m = 4 \<or> m = 5 \<or> m = 6 \<or> m = 7
     \<or> m = 8 \<or> m = 9 \<or> m = 10 \<or> m = 11 \<or> m = (12::nat)"
  by arith

lemma spaces1_blank: "\<not> is_space c \<Longrightarrow> spaces1 (CHR '' '' # c # s) = Some (c # s)"
  by (simp add: spaces1_def is_space_def)

lemma letter_not_space: "c \<in> set ''JFMASOND'' \<Longrightarrow> \<not> is_space c"
  by (auto simp: is_space_def)

lemma month_year_written:
  assumes "1 \<le> m" "m \<le> 12" "1000 \<le> y" "y < 10000"
  shows "month_year (CHR '' '' # month_abbr m @ CHR '' '' # decimal y) = Some (m, y)"
proof -
  from year_digits [OF assms(3,4)] obtain a b c e where
    y: "decimal y = [digit_char a, digit_char b, digit_char c, digit_char e]"
    "a < 10" "b < 10" "c < 10" "e < 10" "1000 * a + 100 * b + 10 * c + e = y"
    by blast
  have tail: "spaces1 (CHR '' '' # decimal y) = Some (decimal y)"
    using y(2) by (simp add: y(1) spaces1_blank digit_not_space)
  have digits: "map digit_val (decimal y) = [Some a, Some b, Some c, Some e]"
    using y by (simp add: digit_val_digit)
  have year: "(case map digit_val (decimal y) of
        [Some a, Some b, Some c, Some d] \<Rightarrow> Some (k, 1000 * a + 100 * b + 10 * c + d)
      | _ \<Rightarrow> None) = Some (k, y)" for k :: nat
    by (simp add: digits y(6))
  from month_cases [OF assms(1,2)] show ?thesis
    by (elim disjE)
      (simp_all add: month_year_def month_abbr_def month_names_def to_lower_def
        spaces1_blank letter_not_space tail year)
qed


lemma days_in_month_le: "days_in_month y m \<le> 31"
  by (simp add: days_in_month_def)

lemma day_alternatives_written:
  assumes "1 \<le> d" "d \<le> 31"
  shows "\<exists>alts. day_alternatives ((if d < 10 then ''0'' else []) @ decimal d @ CHR '' '' # s)
     = (d, CHR '' '' # s) # alts"
proof (cases "d < 10")
  case True
  have "digit_val (CHR ''0'') = Some 0" by (simp add: digit_val_def)
  with True assms(1) show ?thesis
    by (simp add: decimal_1 digit_val_digit)
next
  case False
  define a where "a = d div 10"
  define b where "b = d mod 10"
  have d: "d = 10 * a + b" by (simp add: a_def b_def)
  from False assms(2) have a: "1 \<le> a" "a \<le> 3" "b < 10" "a < 10" by (simp_all add: a_def b_def)
  from d assms(2) have b3: "a = 3 \<Longrightarrow> b \<le> 1" by simp
  from False assms(2) have "decimal d = [digit_char a, digit_char b]"
    by (simp add: decimal_2 a_def b_def)
  moreover have "a = 3 \<or> (1 \<le> a \<and> a \<le> 2)" using a by arith
  ultimately show ?thesis
    using False a b3 d by (auto simp: digit_val_digit)
qed

lemma strptime_strftime:
  assumes "valid_date (y, m, d)" "1000 \<le> y"
  shows "strptime (strftime (y, m, d)) = Inr (y, m, d)"
proof -
  from assms(1) have r: "1 \<le> m" "m \<le> 12" "1 \<le> d" "d \<le> 31" "y < 10000"
    using days_in_month_le [of y m] by (simp_all add: valid_date_def)
  from day_alternatives_written [OF r(3,4), of "month_abbr m @ CHR '' '' # decimal y"]
  obtain alts where "day_alternatives (strftime (y, m, d))
      = (d, CHR '' '' # month_abbr m @ CHR '' '' # decimal y) # alts"
    by (auto simp: strftime_def)
  then have "first_match (day_alternatives (strftime (y, m, d))) = Some (y, m, d)"
    by (simp add: month_year_written [OF r(1,2) assms(2) r(5)])
  with assms(1) show ?thesis by (simp add: strptime_def)
qed

subsection \<open>A page decoded to a list of entries\<close>

lemma listing_papers_listing: "listing_papers (listing v) = Inr v"
  by (simp add: listing_papers_def listing_def dict_get_def)

lemma parse_listing_list:
  "parse target category index (listing (JArr papers))
     = parse_entries target category index papers"
  by (simp add: parse_def listing_papers_listing)

text \<open>
  For a page decoded to a list of entries whose approved dates can be read, at least one, in
  a category of the table: when every date is later than the target date, the only request
  is the page at offset + 50; otherwise, when every date is earlier, there is no request;
  otherwise, when the entries written with the target date have an identifier, there is one
  detail request for each entry whose approved date, as text without surrounding white
  space, is the target date as \<open>strftime\<close> writes it, in page order, followed by the
  request for the page at offset + 50. Each such entry carries the category as its only
  category, and \<open>parse_detail\<close> adds the fetched detail to it. The approved date of each
  such entry is the target date (for a target date with a year of four digits).
\<close>

lemma parse_listed_page:
  assumes "approved_dates papers = Inr (d # ds)"
    and "map_of category2id category = Some cat_id"
  shows "((\<forall>x\<in>set (d # ds). date_less target x) \<longrightarrow>
        parse target category index (listing (JArr papers)) = ([PageRequest cat_id category (index + 50)], None))
    \<and> (\<not> (\<forall>x\<in>set (d # ds). date_less target x) \<and> (\<forall>x\<in>set (d # ds). date_less x target) \<longrightarrow>
        parse target category index (listing (JArr papers)) = ([], None))
    \<and> (\<not> (\<forall>x\<in>set (d # ds). date_less target x) \<and> \<not> (\<forall>x\<in>set (d # ds). date_less x target)
        \<and> (\<forall>p\<in>set (matching target category papers). map_of p ''id'' \<noteq> None) \<longrightarrow>
        parse target category index (listing (JArr papers))
          = (map (\<lambda>p. DetailRequest (dict_get p ''id'' JNull) p) (matching target category papers)
               @ [PageRequest cat_id category (index + 50)], None))
    \<and> (\<forall>p\<in>set (matching target category papers).
          map_of (parse_detail p response) ''category'' = Some (JArr [JStr category])
          \<and> map_of (parse_detail p response) ''detail''
              = Some (dict_get response ''PaperJson'' (JObj [])))
    \<and> (valid_date target \<and> 1000 \<le> fst target \<longrightarrow>
          (\<forall>p\<in>set (matching target category papers). strptime (date_text p) = Inr target))"
proof -
  have pr: "page_request category (index + 50) = Inr (PageRequest cat_id category (index + 50))"
    by (simp add: page_request_def assms(2))
  have a: "parse target category index (listing (JArr papers)) = ([PageRequest cat_id category (index + 50)], None)"
    if "\<forall>x\<in>set (d # ds). date_less target x"
  proof -
    from that have "date_less target (min_date d ds)"
      using min_date_later [of target d ds] by blast
    then show ?thesis by (simp add: parse_listing_list parse_entries_def assms(1) pr)
  qed
  have b: "parse target category index (listing (JArr papers)) = ([], None)"
    if "\<not> (\<forall>x\<in>set (d # ds). date_less target x)" "\<forall>x\<in>set (d # ds). date_less x target"
  proof -
    from that(1) have "\<not> date_less target (min_date d ds)"
      using min_date_later [of target d ds] by blast
    moreover from that(2) have "date_less (max_date d ds) target"
      using max_date_earlier [of d ds target] by blast
    ultimately show ?thesis by (simp add: parse_listing_list parse_entries_def assms(1))
  qed
  have c: "parse target category index (listing (JArr papers))
          = (map (\<lambda>p. DetailRequest (dict_get p ''id'' JNull) p) (matching target category papers)
               @ [PageRequest cat_id category (index + 50)], None)"
    if "\<not> (\<forall>x\<in>set (d # ds). date_less target x)" "\<not> (\<forall>x\<in>set (d # ds). date_less x target)"
      "\<forall>p\<in>set (matching target category papers). map_of p ''id'' \<noteq> None"
  proof -
    from that(1) have "\<not> date_less target (min_date d ds)"
      using min_date_later [of target d ds] by blast
    moreover from that(2) have "\<not> date_less (max_date d ds) target"
      using max_date_earlier [of d ds target] by blast
    ultimately show ?thesis
      by (simp add: parse_listing_list parse_entries_def assms(1) pr detail_requests_matching [OF assms(1) that(3)])
  qed
  have e: "\<forall>p\<in>set (matching target category papers).
          map_of (parse_detail p response) ''category'' = Some (JArr [JStr category])
          \<and> map_of (parse_detail p response) ''detail''
              = Some (dict_get response ''PaperJson'' (JObj []))"
    by (simp add: parse_detail_def update_conv' matching_category)
  have f: "\<forall>p\<in>set (matching target category papers). strptime (date_text p) = Inr target"
    if "valid_date target" "1000 \<le> fst target"
    using that strptime_strftime [of "fst target" "fst (snd target)" "snd (snd target)"]
    by (simp add: matching_date_text)
  from a b c e f show ?thesis by blast
qed

lemma page_target_day_dates: "approved_dates page_target_day = Inr [(2025, 7, 3), (2025, 7, 2)]"
  by code_simp

lemma page_target_day_matching:
  "matching (2025, 7, 2) ''IS'' page_target_day
     = [[(''id'', JStr ''2''), (''approved_date'', JStr ''02 Jul 2025''),
         (''category'', JArr [JStr ''IS''])]]"
  by code_simp

lemma parse_listed_page_example:
  "approved_dates page_target_day = Inr [(2025, 7, 3), (2025, 7, 2)]
   \<and> map_of category2id ''IS'' = Some 304241
   \<and> list_all (date_less (2025, 7, 1)) [(2025, 7, 3), (2025, 7, 2)]
   \<and> parse (2025, 7, 1) ''IS'' 0 (listing (JArr page_target_day)) = ([PageRequest 304241 ''IS'' 50], None)
   \<and> \<not> list_all (date_less (2025, 7, 4)) [(2025, 7, 3), (2025, 7, 2)]
   \<and> list_all (\<lambda>x. date_less x (2025, 7, 4)) [(2025, 7, 3), (2025, 7, 2)]
   \<and> parse (2025, 7, 4) ''IS'' 0 (listing (JArr page_target_day)) = ([], None)
   \<and> \<not> list_all (date_less (2025, 7, 2)) [(2025, 7, 3), (2025, 7, 2)]
   \<and> \<not> list_all (\<lambda>x. date_less x (2025, 7, 2)) [(2025, 7, 3), (2025, 7, 2)]
   \<and> list_all (\<lambda>p. map_of p ''id'' \<noteq> None) (matching (2025, 7, 2) ''IS'' page_target_day)
   \<and> parse (2025, 7, 2) ''IS'' 0 (listing (JArr page_target_day))
       = ([DetailRequest (JStr ''2'')
             [(''id'', JStr ''2''), (''approved_date'', JStr ''02 Jul 2025''),
              (''category'', JArr [JStr ''IS''])],
           PageRequest 304241 ''IS'' 50], None)
   \<and> valid_date (2025, 7, 2) \<and> (1000::nat) \<le> fst (2025, 7, 2)
   \<and> list_all (\<lambda>p. strptime (date_text p) = Inr (2025, 7, 2))
         (matching (2025, 7, 2) ''IS'' page_target_day)"
proof -
  have c: "map_of category2id ''IS'' = Some 304241" by (simp add: category2id_def)
  note t = parse_listed_page [OF page_target_day_dates c]
  have l1: "\<forall>x\<in>set [(2025, 7, 3), (2025, 7, 2)]. date_less (2025, 7, 1) x" by simp
  from t [of "(2025, 7, 1)" 0] l1
  have p1: "parse (2025, 7, 1) ''IS'' 0 (listing (JArr page_target_day)) = ([PageRequest 304241 ''IS'' 50], None)"
    by simp
  have l4: "\<not> (\<forall>x\<in>set [(2025, 7, 3), (2025, 7, 2)]. date_less (2025, 7, 4) x)"
    and e4: "\<forall>x\<in>set [(2025, 7, 3), (2025, 7, 2)]. date_less x (2025, 7, 4)" by simp_all
  from t [of "(2025, 7, 4)" 0] l4 e4
  have p4: "parse (2025, 7, 4) ''IS'' 0 (listing (JArr page_target_day)) = ([], None)"
    by blast
  have n1: "\<not> (\<forall>x\<in>set [(2025, 7, 3), (2025, 7, 2)]. date_less (2025, 7, 2) x)"
    and n2: "\<not> (\<forall>x\<in>set [(2025, 7, 3), (2025, 7, 2)]. date_less x (2025, 7, 2))" by simp_all
  have ids: "\<forall>p\<in>set (matching (2025, 7, 2) ''IS'' page_target_day). map_of p ''id'' \<noteq> None"
    by (simp add: page_target_day_matching)
  have v: "valid_date (2025, 7, 2)" "(1000::nat) \<le> fst (2025, 7, 2)"
    by (simp_all add: valid_date_def days_in_month_def)
  from t [of "(2025, 7, 2)" 0] n1 n2 ids
  have "parse (2025, 7, 2) ''IS'' 0 (listing (JArr page_target_day))
          = (map (\<lambda>p. DetailRequest (dict_get p ''id'' JNull) p)
               (matching (2025, 7, 2) ''IS'' page_target_day)
               @ [PageRequest 304241 ''IS'' (0 + 50)], None)"
    by blast
  then have p2: "parse (2025, 7, 2) ''IS'' 0 (listing (JArr page_target_day))
       = ([DetailRequest (JStr ''2'')
             [(''id'', JStr ''2''), (''approved_date'', JStr ''02 Jul 2025''),
              (''category'', JArr [JStr ''IS''])],
           PageRequest 304241 ''IS'' 50], None)"
    by (simp add: page_target_day_matching dict_get_def)
  from t [of "(2025, 7, 2)" 0] v
  have rd: "\<forall>p\<in>set (matching (2025, 7, 2) ''IS'' page_target_day).
      strptime (date_text p) = Inr (2025, 7, 2)"
    by blast
  from page_target_day_dates c p1 p4 p2 ids v rd show ?thesis
    by (simp add: list_all_iff)
qed

subsection \<open>A page with one entry\<close>

text \<open>
  C5. The claim does not hold of \<open>parse\<close>: for a listing page with a single entry the
  value decoded for the entries is the dictionary of that entry, not a list. The first loop
  then goes through the keys of the entry, the first of which, a string, has no
  \<^verbatim>\<open>get\<close>: the call ends with \<open>AttributeError\<close>, and it yields neither the detail
  request of the entry nor the request for the page at offset + 50, whatever the approved
  date of the entry is.
\<close>

theorem parse_single_entry_page:
  "parse target category index (listing (JObj ((k, v) # entry))) = ([], Some AttributeError)
   \<and> parse (2025, 7, 22) ''IS'' 0
         [(''PaperResultSet'', JObj [(''papers'', JObj [(''papers'',
             JObj [(''id'', JStr ''5001''), (''approved_date'', JStr ''22 Jul 2025'')])])])]
       = ([], Some AttributeError)"
  by (simp add: parse_def listing_papers_def listing_def dict_get_def parse_entries_def)

subsection \<open>A page without a date\<close>

text \<open>
  C9. The claim does not hold of \<open>parse\<close>: a page without entries, or without an entry
  that has an approved date, ends the call with an exception, and nothing is yielded. The
  exception is the \<open>ValueError\<close> of \<open>min\<close> on the empty list when the response has no
  \<open>PaperResultSet\<close>, when the result set has no \<open>papers\<close>, when the list of entries is
  empty, and when the entries have no approved date or a blank one; it is
  \<open>AttributeError\<close> when the result set, its \<open>papers\<close> or the approved date of an entry
  is an empty element, decoded to \<^verbatim>\<open>None\<close>, and \<open>TypeError\<close> when the innermost
  \<open>papers\<close> is.
\<close>

theorem parse_undated_page:
  "parse target category index [] = ([], Some ValueError)
   \<and> parse target category index [(''PaperResultSet'', JObj [(''total'', JStr ''0'')])]
       = ([], Some ValueError)
   \<and> parse target category index (listing (JArr [])) = ([], Some ValueError)
   \<and> parse target category index (listing (JArr [JObj [(''id'', JStr ''1'')]]))
       = ([], Some ValueError)
   \<and> parse target category index
         (listing (JArr [JObj [(''id'', JStr ''1''), (''approved_date'', JStr '' '')]]))
       = ([], Some ValueError)
   \<and> parse target category index
         (listing (JArr [JObj [(''id'', JStr ''1'')],
                         JObj [(''id'', JStr ''2''), (''approved_date'', JStr '' '')],
                         JObj [(''id'', JStr ''3''), (''approved_date'', JNull)]]))
       = ([], Some AttributeError)
   \<and> parse target category index
         (listing (JArr [JObj [(''id'', JStr ''1'')],
                         JObj [(''id'', JStr ''2''), (''approved_date'', JStr '' '')]]))
       = ([], Some ValueError)
   \<and> parse target category index [(''PaperResultSet'', JNull)] = ([], Some AttributeError)
   \<and> parse target category index [(''PaperResultSet'', JObj [(''papers'', JNull)])]
       = ([], Some AttributeError)
   \<and> parse target category index (listing JNull) = ([], Some TypeError)"
  by (simp add: parse_def listing_papers_def listing_def parse_entries_def dict_get_def
      strip_def is_space_def)

end
